theory Spec2Isabelle
  imports Complex_Main "HOL-Library.AList"
begin

section \<open>Errors\<close>

text \<open>
  The exceptions the analysed functions can raise. \<open>ValueError\<close> carries the column names
  or the symbol the message is built from.
\<close>

datatype error =
    MissingColumns "string list"   \<comment> \<open>\<open>ValueError("Missing required columns: ...")\<close>\<close>
  | NoData string                  \<comment> \<open>\<open>ValueError("No data found for symbol: ...")\<close>\<close>
  | IndexError                     \<comment> \<open>positional indexer out of bounds\<close>
  | KeyError string                \<comment> \<open>column missing from a frame\<close>
  | TypeError                      \<comment> \<open>numeric routine applied to a non-numeric column\<close>

section \<open>Column names: \<open>StockAnalyzer.process_data\<close>, lines 27 to 55\<close>

text \<open>
  The header of the loaded file is the list of its column names. The synonym table is a
  Python dict, iterated in insertion order.
\<close>

definition column_mapping :: "(string \<times> string) list" where
  "column_mapping =
    [(''date'', ''Date''), (''timestamp'', ''Date''), (''datetime'', ''Date''),
     (''symbol'', ''Name''), (''ticker'', ''Name''), (''name'', ''Name''),
     (''Name'', ''Name''),
     (''open'', ''Open''), (''high'', ''High''), (''low'', ''Low''),
     (''close'', ''Close''), (''volume'', ''Volume'')]"

definition rename :: "string \<Rightarrow> string \<Rightarrow> string list \<Rightarrow> string list" where
  \<comment> \<open>\<open>df.rename(columns={old_col: new_col}, inplace=True)\<close>\<close>
  "rename old_col new_col cols = map (\<lambda>c. if c = old_col then new_col else c) cols"

fun rename_columns :: "(string \<times> string) list \<Rightarrow> string list \<Rightarrow> string list" where
  "rename_columns [] cols = cols"
| "rename_columns ((old_col, new_col) # rest) cols =
     rename_columns rest
       (if old_col \<in> set cols \<and> new_col \<notin> set cols then rename old_col new_col cols
        else cols)"

definition required_columns :: "string list" where
  "required_columns =
     [''Date'', ''Name'', ''Open'', ''High'', ''Low'', ''Close'', ''Volume'']"

definition missing_columns :: "string list \<Rightarrow> string list" where
  "missing_columns cols = filter (\<lambda>col. col \<notin> set cols) required_columns"

definition process_data_columns :: "string list \<Rightarrow> error + string list" where
  \<comment> \<open>the renaming loop and the check for required columns; the result is the new header\<close>
  "process_data_columns cols =
     (let cols' = rename_columns column_mapping cols;
          missing = missing_columns cols'
      in if missing \<noteq> [] then Inl (MissingColumns missing) else Inr cols')"

section \<open>Numeric cells\<close>

text \<open>
  A numeric cell of a pandas column is a 64-bit float. The model keeps its special values
  (\<open>NaN\<close>, which pandas also uses for a missing value, and the two infinities) and takes
  the finite values as exact reals: rounding, overflow and the sign of zero are outside
  the model. What is proved of a finite result that the code computes with rounding holds
  of the code up to that rounding only; the properties below rest on the special values,
  on comparisons and on counts, or on arithmetic that is exact in floats too. The
  operations follow IEEE 754 on the special values; numpy returns an
  infinity or \<open>NaN\<close> for a division by zero and raises nothing.
\<close>

datatype flt = NaN | NInf | Fin real | PInf

definition finf :: "bool \<Rightarrow> flt" where
  "finf positive = (if positive then PInf else NInf)"

fun fneg :: "flt \<Rightarrow> flt" where
  "fneg NaN = NaN"
| "fneg NInf = PInf"
| "fneg (Fin a) = Fin (- a)"
| "fneg PInf = NInf"

fun fadd :: "flt \<Rightarrow> flt \<Rightarrow> flt" where
  "fadd NaN b = NaN"
| "fadd a NaN = NaN"
| "fadd (Fin a) (Fin b) = Fin (a + b)"
| "fadd PInf NInf = NaN"
| "fadd NInf PInf = NaN"
| "fadd PInf b = PInf"
| "fadd NInf b = NInf"
| "fadd a PInf = PInf"
| "fadd a NInf = NInf"

definition fsub :: "flt \<Rightarrow> flt \<Rightarrow> flt" where
  "fsub a b = fadd a (fneg b)"

fun fmul :: "flt \<Rightarrow> flt \<Rightarrow> flt" where
  "fmul NaN b = NaN"
| "fmul a NaN = NaN"
| "fmul (Fin a) (Fin b) = Fin (a * b)"
| "fmul (Fin a) PInf = (if a = 0 then NaN else finf (0 < a))"
| "fmul (Fin a) NInf = (if a = 0 then NaN else finf (a < 0))"
| "fmul PInf (Fin b) = (if b = 0 then NaN else finf (0 < b))"
| "fmul NInf (Fin b) = (if b = 0 then NaN else finf (b < 0))"
| "fmul PInf PInf = PInf"
| "fmul PInf NInf = NInf"
| "fmul NInf PInf = NInf"
| "fmul NInf NInf = PInf"

fun fdiv :: "flt \<Rightarrow> flt \<Rightarrow> flt" where
  "fdiv NaN b = NaN"
| "fdiv a NaN = NaN"
| "fdiv (Fin a) (Fin b) =
     (if b \<noteq> 0 then Fin (a / b) else if a = 0 then NaN else finf (0 < a))"
| "fdiv (Fin a) PInf = Fin 0"
| "fdiv (Fin a) NInf = Fin 0"
| "fdiv PInf (Fin b) = finf (0 \<le> b)"
| "fdiv NInf (Fin b) = finf (b < 0)"
| "fdiv PInf PInf = NaN"
| "fdiv PInf NInf = NaN"
| "fdiv NInf PInf = NaN"
| "fdiv NInf NInf = NaN"

fun fsqrt :: "flt \<Rightarrow> flt" where
  "fsqrt NaN = NaN"
| "fsqrt NInf = NaN"
| "fsqrt (Fin a) = (if a < 0 then NaN else Fin (sqrt a))"
| "fsqrt PInf = PInf"

text \<open>Comparisons: every comparison with \<open>NaN\<close> is false, except \<open>!=\<close>, which is true.\<close>

fun fless :: "flt \<Rightarrow> flt \<Rightarrow> bool" where
  "fless NaN b = False"
| "fless a NaN = False"
| "fless (Fin a) (Fin b) = (a < b)"
| "fless a NInf = False"
| "fless PInf b = False"
| "fless NInf b = True"
| "fless a PInf = True"

fun fle :: "flt \<Rightarrow> flt \<Rightarrow> bool" where
  "fle NaN b = False"
| "fle a NaN = False"
| "fle (Fin a) (Fin b) = (a \<le> b)"
| "fle NInf b = True"
| "fle a PInf = True"
| "fle a NInf = False"
| "fle PInf b = False"

definition fgt :: "flt \<Rightarrow> flt \<Rightarrow> bool" where
  "fgt a b = fless b a"

definition fge :: "flt \<Rightarrow> flt \<Rightarrow> bool" where
  "fge a b = fle b a"

definition fne :: "flt \<Rightarrow> flt \<Rightarrow> bool" where
  "fne a b = (a = NaN \<or> b = NaN \<or> a \<noteq> b)"

section \<open>Columns: the pandas \<open>Series\<close> operations the code calls\<close>

definition dropna :: "flt list \<Rightarrow> flt list" where
  "dropna xs = filter (\<lambda>x. x \<noteq> NaN) xs"

definition fsum :: "flt list \<Rightarrow> flt" where
  "fsum xs = foldl fadd (Fin 0) xs"

definition mean :: "flt list \<Rightarrow> flt" where
  \<comment> \<open>\<open>Series.mean()\<close>: missing values are skipped; no value left gives \<open>0 / 0\<close>, \<open>NaN\<close>\<close>
  "mean xs = (let v = dropna xs in fdiv (fsum v) (Fin (real (length v))))"

definition std :: "flt list \<Rightarrow> flt" where
  \<comment> \<open>\<open>Series.std()\<close>: sample standard deviation (\<open>ddof = 1\<close>) of the values present;
      \<open>NaN\<close> when fewer than two are\<close>
  "std xs =
     (let v = dropna xs; count = length v
      in if count \<le> 1 then NaN
         else let avg = fdiv (fsum v) (Fin (real count));
                  sqr = fsum (map (\<lambda>x. fmul (fsub avg x) (fsub avg x)) v)
              in fsqrt (fdiv sqr (Fin (real (count - 1)))))"

definition series_max :: "flt list \<Rightarrow> flt" where
  \<comment> \<open>\<open>Series.max()\<close>: the largest value present, \<open>NaN\<close> when none is\<close>
  "series_max xs =
     (case dropna xs of [] \<Rightarrow> NaN
      | y # ys \<Rightarrow> foldl (\<lambda>a b. if fless a b then b else a) y ys)"

definition series_min :: "flt list \<Rightarrow> flt" where
  \<comment> \<open>\<open>Series.min()\<close>\<close>
  "series_min xs =
     (case dropna xs of [] \<Rightarrow> NaN
      | y # ys \<Rightarrow> foldl (\<lambda>a b. if fless b a then b else a) y ys)"

definition diff :: "flt list \<Rightarrow> flt list" where
  \<comment> \<open>\<open>Series.diff()\<close>: each value minus the one before; the first entry is \<open>NaN\<close>\<close>
  "diff xs = (case xs of [] \<Rightarrow> []
              | _ # rest \<Rightarrow> NaN # map2 (\<lambda>prev cur. fsub cur prev) xs rest)"

definition pct_change :: "flt list \<Rightarrow> flt list" where
  \<comment> \<open>\<open>Series.pct_change()\<close>: \<open>cur / prev - 1\<close>; the first entry is \<open>NaN\<close>. A missing
      value stays missing: the forward fill that older pandas versions apply first is
      not part of the model.\<close>
  "pct_change xs = (case xs of [] \<Rightarrow> []
              | _ # rest \<Rightarrow> NaN # map2 (\<lambda>prev cur. fsub (fdiv cur prev) (Fin 1)) xs rest)"

definition iloc :: "'a list \<Rightarrow> int \<Rightarrow> error + 'a" where
  \<comment> \<open>\<open>.iloc[k]\<close>: the position \<open>k\<close> from the front, or \<open>- k\<close> from the end when \<open>k\<close> is
      negative; a position outside the list raises\<close>
  "iloc xs k =
     (if 0 \<le> k \<and> k < int (length xs) then Inr (xs ! nat k)
      else if k < 0 \<and> - k \<le> int (length xs) then Inr (xs ! nat (int (length xs) + k))
      else Inl IndexError)"

definition cell_at :: "flt list \<Rightarrow> nat \<Rightarrow> flt" where
  \<comment> \<open>the value a column holds at a row; a row the column does not reach has \<open>NaN\<close>\<close>
  "cell_at col i = (if i < length col then col ! i else NaN)"

section \<open>Rows of the analyser's frame\<close>

text \<open>
  After the column check the frame has the seven required columns; a row of it is a
  \<open>bar\<close>. Dates are taken as parsed (a day number). \<open>calculate_technical_indicators\<close> adds
  fourteen columns; a row of the frame it leaves in \<open>self.df\<close> is a \<open>row\<close>.
\<close>

type_synonym date = int

record bar =
  Date :: date
  Name :: string
  Open :: flt
  High :: flt
  Low :: flt
  Close :: flt
  Volume :: flt

record row = bar +
  SMA_20 :: flt
  SMA_50 :: flt
  SMA_200 :: flt
  EMA_20 :: flt
  EMA_50 :: flt
  MACD :: flt
  MACD_Signal :: flt
  MACD_Hist :: flt
  RSI :: flt
  BB_Upper :: flt
  BB_Lower :: flt
  BB_Middle :: flt
  Stoch_K :: flt
  Stoch_D :: flt

section \<open>The indicator library\<close>

text \<open>
  The indicators come from the third-party package \<open>ta\<close>, which is not part of the
  repository. The simple moving average is modelled below; the others are parameters of
  the model: functions from the columns they are given to the column they return.
\<close>

definition sma_indicator :: "nat \<Rightarrow> flt list \<Rightarrow> flt list" where
  \<comment> \<open>Modelled from the spec: \<open>SMAIndicator(close, window).sma_indicator()\<close> of the package
      \<open>ta\<close>. Spec 4.2: "SMA(n): arithmetic mean of close over trailing n bars"; spec 3: "any
      indicator requiring N prior bars is undefined (null) for the first N-1 bars".\<close>
  "sma_indicator window close =
     map (\<lambda>i. if i + 1 < window then NaN
              else fdiv (fsum (take window (drop (i + 1 - window) close)))
                        (Fin (real window)))
         [0..<length close]"

record ta_lib =
  ema_indicator :: "nat \<Rightarrow> flt list \<Rightarrow> flt list"
  macd :: "flt list \<Rightarrow> flt list"
  macd_signal :: "flt list \<Rightarrow> flt list"
  macd_diff :: "flt list \<Rightarrow> flt list"
  rsi :: "flt list \<Rightarrow> flt list"
  bollinger_hband :: "flt list \<Rightarrow> flt list"
  bollinger_lband :: "flt list \<Rightarrow> flt list"
  bollinger_mavg :: "flt list \<Rightarrow> flt list"
  stoch :: "flt list \<Rightarrow> flt list \<Rightarrow> flt list \<Rightarrow> flt list"
  stoch_signal :: "flt list \<Rightarrow> flt list \<Rightarrow> flt list \<Rightarrow> flt list"

section \<open>\<open>StockAnalyzer.calculate_technical_indicators\<close>, lines 66 to 95\<close>

text \<open>
  Every indicator is computed from \<open>self.df['Close']\<close> (the stochastic oscillator also
  from \<open>High\<close> and \<open>Low\<close>): the columns of the whole frame, all symbols together, in the
  frame's row order. The method assigns the new columns to \<open>self.df\<close>; the function returns
  the frame \<open>self.df\<close> holds afterwards.
\<close>

definition calculate_technical_indicators :: "ta_lib \<Rightarrow> bar list \<Rightarrow> row list" where
  "calculate_technical_indicators lib df =
     (let close = map Close df; high = map High df; low = map Low df;
          sma_20 = sma_indicator 20 close;
          sma_50 = sma_indicator 50 close;
          sma_200 = sma_indicator 200 close;
          ema_20 = ema_indicator lib 20 close;
          ema_50 = ema_indicator lib 50 close;
          macd_c = macd lib close;
          macd_signal_c = macd_signal lib close;
          macd_hist_c = macd_diff lib close;
          rsi_c = rsi lib close;
          bb_upper = bollinger_hband lib close;
          bb_lower = bollinger_lband lib close;
          bb_middle = bollinger_mavg lib close;
          stoch_k = stoch lib high low close;
          stoch_d = stoch_signal lib high low close
      in map (\<lambda>i. let b = df ! i in
            \<lparr>Date = Date b, Name = Name b, Open = Open b, High = High b, Low = Low b,
             Close = Close b, Volume = Volume b,
             SMA_20 = cell_at sma_20 i, SMA_50 = cell_at sma_50 i,
             SMA_200 = cell_at sma_200 i,
             EMA_20 = cell_at ema_20 i, EMA_50 = cell_at ema_50 i,
             MACD = cell_at macd_c i, MACD_Signal = cell_at macd_signal_c i,
             MACD_Hist = cell_at macd_hist_c i,
             RSI = cell_at rsi_c i,
             BB_Upper = cell_at bb_upper i, BB_Lower = cell_at bb_lower i,
             BB_Middle = cell_at bb_middle i,
             Stoch_K = cell_at stoch_k i, Stoch_D = cell_at stoch_d i\<rparr>)
          [0..<length df])"

definition process_data_rows :: "ta_lib \<Rightarrow> bar list \<Rightarrow> row list" where
  \<comment> \<open>\<open>process_data\<close> from line 57 on: the frame is sorted by \<open>Date\<close> alone, then the
      indicators are computed. pandas leaves the order of rows with equal dates open; the
      model keeps their input order, and nothing proved below depends on which order rows
      with equal dates take.\<close>
  "process_data_rows lib df = calculate_technical_indicators lib (sort_key Date df)"

definition symbol_rows :: "string \<Rightarrow> ('a bar_scheme) list \<Rightarrow> ('a bar_scheme) list" where
  \<comment> \<open>\<open>self.df[self.df['Name'] == symbol]\<close>\<close>
  "symbol_rows symbol df = filter (\<lambda>r. Name r = symbol) df"

section \<open>\<open>StockAnalyzer.identify_patterns\<close>, lines 97 to 192\<close>

datatype pattern =
    Strong_Uptrend | Strong_Downtrend | Consolidation
  | Golden_Cross | Death_Cross
  | Overbought | Oversold
  | Above_Upper_Band | Below_Lower_Band

datatype confidence = Conf_High | Conf_Medium

record event =
  date :: date
  pattern :: pattern
  confidence :: confidence
  description :: string

fun confidence_of :: "pattern \<Rightarrow> confidence" where
  "confidence_of Strong_Uptrend = Conf_High"
| "confidence_of Strong_Downtrend = Conf_High"
| "confidence_of Consolidation = Conf_Medium"
| "confidence_of Golden_Cross = Conf_High"
| "confidence_of Death_Cross = Conf_High"
| "confidence_of Overbought = Conf_Medium"
| "confidence_of Oversold = Conf_Medium"
| "confidence_of Above_Upper_Band = Conf_Medium"
| "confidence_of Below_Lower_Band = Conf_Medium"

fun description_of :: "pattern \<Rightarrow> string" where
  "description_of Strong_Uptrend = ''Consistent upward price movement''"
| "description_of Strong_Downtrend = ''Consistent downward price movement''"
| "description_of Consolidation = ''Price moving sideways in a tight range''"
| "description_of Golden_Cross = ''50-day SMA crosses above 200-day SMA''"
| "description_of Death_Cross = ''50-day SMA crosses below 200-day SMA''"
| "description_of Overbought = ''RSI above 70 indicates potential overbought condition''"
| "description_of Oversold = ''RSI below 30 indicates potential oversold condition''"
| "description_of Above_Upper_Band = ''Price above upper Bollinger Band''"
| "description_of Below_Lower_Band = ''Price below lower Bollinger Band''"

definition pattern_event :: "date \<Rightarrow> pattern \<Rightarrow> event" where
  \<comment> \<open>the dict each \<open>patterns.append\<close> builds\<close>
  "pattern_event d p =
     \<lparr>date = d, pattern = p, confidence = confidence_of p, description = description_of p\<rparr>"

definition iloc_slice :: "'a list \<Rightarrow> nat \<Rightarrow> nat \<Rightarrow> 'a list" where
  \<comment> \<open>\<open>.iloc[start:stop]\<close> for \<open>0 \<le> start\<close>\<close>
  "iloc_slice xs start stop = take (stop - start) (drop start xs)"

text \<open>
  The rules of the loop body, in the order of the source. Each gives the events it
  appends for the date \<open>d\<close> of the current row.
\<close>

definition trend_events :: "date \<Rightarrow> flt list \<Rightarrow> event list" where
  \<comment> \<open>lines 115 to 138, an \<open>if\<close>/\<open>elif\<close>/\<open>elif\<close> chain over the closes of the window\<close>
  "trend_events d closes =
     (if list_all (\<lambda>x. fgt x (Fin 0)) (dropna (diff closes))
        then [pattern_event d Strong_Uptrend]
      else if list_all (\<lambda>x. fless x (Fin 0)) (dropna (diff closes))
        then [pattern_event d Strong_Downtrend]
      else if fless (std closes) (fmul (mean closes) (Fin 0.02))
        then [pattern_event d Consolidation]
      else [])"

definition golden_cross_events :: "date \<Rightarrow> row \<Rightarrow> row \<Rightarrow> event list" where
  \<comment> \<open>lines 140 to 148\<close>
  "golden_cross_events d before_last last_row =
     (if fle (SMA_50 before_last) (SMA_200 before_last)
         \<and> fgt (SMA_50 last_row) (SMA_200 last_row)
      then [pattern_event d Golden_Cross] else [])"

definition death_cross_events :: "date \<Rightarrow> row \<Rightarrow> row \<Rightarrow> event list" where
  \<comment> \<open>lines 150 to 158\<close>
  "death_cross_events d before_last last_row =
     (if fge (SMA_50 before_last) (SMA_200 before_last)
         \<and> fless (SMA_50 last_row) (SMA_200 last_row)
      then [pattern_event d Death_Cross] else [])"

definition rsi_events :: "date \<Rightarrow> row \<Rightarrow> event list" where
  \<comment> \<open>lines 160 to 174\<close>
  "rsi_events d last_row =
     (if fgt (RSI last_row) (Fin 70) then [pattern_event d Overbought]
      else if fless (RSI last_row) (Fin 30) then [pattern_event d Oversold]
      else [])"

definition bollinger_events :: "date \<Rightarrow> flt \<Rightarrow> row \<Rightarrow> event list" where
  \<comment> \<open>lines 176 to 190\<close>
  "bollinger_events d current_price last_row =
     (if fgt current_price (BB_Upper last_row) then [pattern_event d Above_Upper_Band]
      else if fless current_price (BB_Lower last_row) then [pattern_event d Below_Lower_Band]
      else [])"

text \<open>
  One pass of the loop body, for the index \<open>i\<close>: the events it appends, or the exception
  it raises. The window size is a natural number, and the loop only runs with
  \<open>window \<le> i\<close>. The rows \<open>iloc[-2]\<close> and \<open>iloc[-1]\<close> of the window are read once, before
  the tests that use them: the first test the source evaluates after the trend rules
  reads \<open>iloc[-2]\<close>, and \<open>iloc[-1]\<close> exists whenever \<open>iloc[-2]\<close> does.
\<close>

definition window_events :: "row list \<Rightarrow> nat \<Rightarrow> nat \<Rightarrow> error + event list" where
  "window_events stock_data window i =
     (case iloc stock_data (int i) of Inl e \<Rightarrow> Inl e
      | Inr current \<Rightarrow>
        let window_data = iloc_slice stock_data (i - window) i;
            current_price = Close current;
            d = Date current
        in case iloc window_data (- 2) of Inl e \<Rightarrow> Inl e
           | Inr before_last \<Rightarrow>
             (case iloc window_data (- 1) of Inl e \<Rightarrow> Inl e
              | Inr last_row \<Rightarrow>
                Inr (trend_events d (map Close window_data)
                  @ golden_cross_events d before_last last_row
                  @ death_cross_events d before_last last_row
                  @ rsi_events d last_row
                  @ bollinger_events d current_price last_row)))"

fun patterns_loop :: "row list \<Rightarrow> nat \<Rightarrow> nat list \<Rightarrow> event list \<Rightarrow> error + event list" where
  \<comment> \<open>\<open>for i in range(window, len(stock_data))\<close>, with the list \<open>patterns\<close> built so far\<close>
  "patterns_loop stock_data window [] patterns = Inr patterns"
| "patterns_loop stock_data window (i # rest) patterns =
     (case window_events stock_data window i of Inl e \<Rightarrow> Inl e
      | Inr evs \<Rightarrow> patterns_loop stock_data window rest (patterns @ evs))"

definition identify_patterns :: "row list \<Rightarrow> string \<Rightarrow> nat \<Rightarrow> error + event list" where
  \<comment> \<open>The columns \<open>Price_Change\<close> and \<open>Volume_Change\<close> the source adds to its copy are never
      read and are left out.\<close>
  "identify_patterns df symbol window =
     (let stock_data = symbol_rows symbol df
      in if stock_data = [] then Inl (NoData symbol)
         else patterns_loop stock_data window [window..<length stock_data] [])"

section \<open>\<open>StockAnalyzer.get_stock_summary\<close>, lines 286 to 315\<close>

text \<open>
  The source formats each number into a string (two decimals, a dollar or percent sign);
  a field of the record holds the number that is formatted. \<open>Week52_High\<close> and
  \<open>Week52_Low\<close> are the entries \<open>'52-Week High'\<close> and \<open>'52-Week Low'\<close>; \<open>Latest_RSI\<close> to
  \<open>Latest_SMA_200\<close> are the entries \<open>'RSI'\<close> to \<open>'SMA_200'\<close>.
\<close>

record summary =
  Symbol :: string
  Current_Price :: flt
  Week52_High :: flt
  Week52_Low :: flt
  Average_Volume :: flt
  Volatility :: flt
  Annual_Return :: flt
  Sharpe_Ratio :: flt
  Latest_RSI :: flt
  Latest_MACD :: flt
  Latest_SMA_20 :: flt
  Latest_SMA_50 :: flt
  Latest_SMA_200 :: flt

definition daily_returns :: "row list \<Rightarrow> flt list" where
  "daily_returns stock_data = pct_change (map Close stock_data)"

definition get_stock_summary :: "row list \<Rightarrow> string \<Rightarrow> error + summary" where
  "get_stock_summary df symbol =
     (let stock_data = symbol_rows symbol df
      in if stock_data = [] then Inl (NoData symbol)
         else
           let annualized_return = fmul (mean (daily_returns stock_data)) (Fin 252);
               annualized_volatility = fmul (std (daily_returns stock_data)) (Fin (sqrt 252));
               sharpe_ratio =
                 (if fne annualized_volatility (Fin 0)
                  then fdiv annualized_return annualized_volatility else Fin 0)
           in Inr \<lparr>Symbol = symbol,
                   Current_Price = Close (last stock_data),
                   Week52_High = series_max (map High stock_data),
                   Week52_Low = series_min (map Low stock_data),
                   Average_Volume = mean (map Volume stock_data),
                   Volatility = annualized_volatility,
                   Annual_Return = annualized_return,
                   Sharpe_Ratio = sharpe_ratio,
                   Latest_RSI = RSI (last stock_data),
                   Latest_MACD = MACD (last stock_data),
                   Latest_SMA_20 = SMA_20 (last stock_data),
                   Latest_SMA_50 = SMA_50 (last stock_data),
                   Latest_SMA_200 = SMA_200 (last stock_data)\<rparr>)"

section \<open>The second application, \<open>app.py\<close>: frames as objects\<close>

text \<open>
  \<open>add_technical_indicators\<close> receives a frame object and assigns columns to it. Which
  object is changed matters here, so frames live in a store and are passed by address.
  A frame has its index (the dates) and its columns by name, in order; a column holds
  numbers or strings.
\<close>

datatype column = Floats "flt list" | Strings "string list"

record frame =
  index :: "date list"
  columns :: "(string \<times> column) list"

type_synonym store = "nat \<Rightarrow> frame"

definition frame_empty :: "frame \<Rightarrow> bool" where
  \<comment> \<open>\<open>df.empty\<close>: no row or no column\<close>
  "frame_empty df = (index df = [] \<or> columns df = [])"

definition get_column :: "frame \<Rightarrow> string \<Rightarrow> error + column" where
  \<comment> \<open>\<open>df[k]\<close>\<close>
  "get_column df k = (case map_of (columns df) k of None \<Rightarrow> Inl (KeyError k)
                      | Some c \<Rightarrow> Inr c)"

definition numeric :: "column \<Rightarrow> error + flt list" where
  \<comment> \<open>a numeric routine given a column: it raises on a column of strings\<close>
  "numeric c = (case c of Floats xs \<Rightarrow> Inr xs | Strings _ \<Rightarrow> Inl TypeError)"

definition get_numeric :: "frame \<Rightarrow> string \<Rightarrow> error + flt list" where
  "get_numeric df k = (case get_column df k of Inl e \<Rightarrow> Inl e | Inr c \<Rightarrow> numeric c)"

definition set_column :: "frame \<Rightarrow> string \<Rightarrow> flt list \<Rightarrow> frame" where
  \<comment> \<open>\<open>df[k] = xs\<close>: an existing column is replaced in its place, a new one is appended\<close>
  "set_column df k xs = df\<lparr>columns := AList.update k (Floats xs) (columns df)\<rparr>"

definition assign_from_close ::
  "frame \<Rightarrow> string \<Rightarrow> (flt list \<Rightarrow> flt list) \<Rightarrow> error + frame" where
  \<comment> \<open>one statement \<open>df[k] = f(df['close'])\<close>: reading the column or handing a column
      of strings to the library raises, and then nothing is assigned\<close>
  "assign_from_close df k f =
     (case get_numeric df ''close'' of Inl e \<Rightarrow> Inl e
      | Inr close \<Rightarrow> Inr (set_column df k (f close)))"

definition indicator_columns :: "ta_lib \<Rightarrow> frame \<Rightarrow> frame" where
  \<comment> \<open>the \<open>try\<close> block with its \<open>except\<close>, lines 43 to 59 of \<open>app.py\<close>: the statements
      run in order on the one frame; a statement that raises ends the block, and the
      columns assigned before it stay. Both ways out return \<open>df\<close>. The \<open>MACD\<close> object reads
      \<open>df['close']\<close> once, for both of its columns.\<close>
  "indicator_columns lib df =
     (case assign_from_close df ''SMA_20'' (sma_indicator 20) of Inl e \<Rightarrow> df
      | Inr df1 \<Rightarrow>
     (case assign_from_close df1 ''SMA_50'' (sma_indicator 50) of Inl e \<Rightarrow> df1
      | Inr df2 \<Rightarrow>
     (case assign_from_close df2 ''RSI'' (rsi lib) of Inl e \<Rightarrow> df2
      | Inr df3 \<Rightarrow>
     (case get_numeric df3 ''close'' of Inl e \<Rightarrow> df3
      | Inr close \<Rightarrow>
          set_column (set_column df3 ''MACD'' (macd lib close))
            ''MACD_Signal'' (macd_signal lib close)))))"

definition add_technical_indicators :: "ta_lib \<Rightarrow> store \<Rightarrow> nat \<Rightarrow> store \<times> nat" where
  \<comment> \<open>\<open>add_technical_indicators(df)\<close>, lines 38 to 59 of \<open>app.py\<close>, for the frame at the
      address \<open>a\<close>: the store afterwards and the address of the frame returned\<close>
  "add_technical_indicators lib h a =
     (if frame_empty (h a) then (h, a)
      else (h(a := indicator_columns lib (h a)), a))"

record statistics =
  Stat_Current_Price :: flt
  Stat_Week52_High :: flt
  Stat_Week52_Low :: flt
  Stat_Average_Volume :: flt
  Stat_RSI :: flt
  Stat_MACD :: flt

definition calculate_statistics :: "frame \<Rightarrow> error + statistics" where
  \<comment> \<open>\<open>calculate_statistics(df)\<close>, lines 162 to 170 of \<open>app.py\<close>; the entries
      \<open>'52 Week High'\<close> and \<open>'52 Week Low'\<close> are \<open>Stat_Week52_High\<close> and \<open>Stat_Week52_Low\<close>\<close>
  "calculate_statistics df =
     (case get_numeric df ''close'' of Inl e \<Rightarrow> Inl e | Inr close \<Rightarrow>
      case iloc close (- 1) of Inl e \<Rightarrow> Inl e | Inr current \<Rightarrow>
      case get_numeric df ''high'' of Inl e \<Rightarrow> Inl e | Inr high \<Rightarrow>
      case get_numeric df ''low'' of Inl e \<Rightarrow> Inl e | Inr low \<Rightarrow>
      case get_numeric df ''volume'' of Inl e \<Rightarrow> Inl e | Inr volume \<Rightarrow>
      case get_numeric df ''RSI'' of Inl e \<Rightarrow> Inl e | Inr rsi_c \<Rightarrow>
      case iloc rsi_c (- 1) of Inl e \<Rightarrow> Inl e | Inr rsi_last \<Rightarrow>
      case get_numeric df ''MACD'' of Inl e \<Rightarrow> Inl e | Inr macd_c \<Rightarrow>
      case iloc macd_c (- 1) of Inl e \<Rightarrow> Inl e | Inr macd_last \<Rightarrow>
        Inr \<lparr>Stat_Current_Price = current,
             Stat_Week52_High = series_max high,
             Stat_Week52_Low = series_min low,
             Stat_Average_Volume = mean volume,
             Stat_RSI = rsi_last,
             Stat_MACD = macd_last\<rparr>)"

section \<open>Example data\<close>

definition plain_row :: "date \<Rightarrow> string \<Rightarrow> real \<Rightarrow> row" where
  \<comment> \<open>a row with one price for open, high, low and close, and no indicator value yet\<close>
  "plain_row d s c =
     \<lparr>Date = d, Name = s, Open = Fin c, High = Fin c, Low = Fin c, Close = Fin c,
      Volume = Fin 1000,
      SMA_20 = NaN, SMA_50 = NaN, SMA_200 = NaN, EMA_20 = NaN, EMA_50 = NaN,
      MACD = NaN, MACD_Signal = NaN, MACD_Hist = NaN, RSI = NaN,
      BB_Upper = NaN, BB_Lower = NaN, BB_Middle = NaN, Stoch_K = NaN, Stoch_D = NaN\<rparr>"

definition rising_rows :: "row list" where
  \<comment> \<open>25 rows of one symbol, on the days 1 to 25, the close equal to the day number\<close>
  "rising_rows = map (\<lambda>d. plain_row d ''ACME'' (of_int d)) [1..25]"

definition falling_rows :: "row list" where
  \<comment> \<open>60 rows of one symbol, on the days 1 to 60, the price falling from 99 to 40\<close>
  "falling_rows = map (\<lambda>d. plain_row d ''ACME'' (of_int (100 - d))) [1..60]"

definition other_bar :: "real \<Rightarrow> date \<Rightarrow> bar" where
  \<comment> \<open>a bar of the symbol \<open>OTHER\<close> at the price \<open>c\<close>\<close>
  "other_bar c d =
     \<lparr>Date = d, Name = ''OTHER'', Open = Fin c, High = Fin c, Low = Fin c, Close = Fin c,
      Volume = Fin 1000\<rparr>"

definition own_bar :: bar where
  "own_bar =
     \<lparr>Date = 20, Name = ''ACME'', Open = Fin 1, High = Fin 1, Low = Fin 1, Close = Fin 1,
      Volume = Fin 1000\<rparr>"

definition mixed_frame :: "real \<Rightarrow> bar list" where
  \<comment> \<open>19 bars of \<open>OTHER\<close> at the price \<open>c\<close> on the days 1 to 19, then one bar of \<open>ACME\<close>
      on day 20\<close>
  "mixed_frame c = map (other_bar c) [1..19] @ [own_bar]"

definition short_series_lib :: ta_lib where
  \<comment> \<open>Modelled from the spec: the indicators of the package \<open>ta\<close> on a series shorter than
      each of their windows. Spec 3: "any indicator requiring N prior bars is undefined
      (null) for the first N-1 bars"; spec 4.2: "engine must not error on short series --
      it returns nulls for the unsupported prefix".\<close>
  "short_series_lib =
     \<lparr>ema_indicator = (\<lambda>window close. map (\<lambda>_. NaN) close),
      macd = map (\<lambda>_. NaN),
      macd_signal = map (\<lambda>_. NaN),
      macd_diff = map (\<lambda>_. NaN),
      rsi = map (\<lambda>_. NaN),
      bollinger_hband = map (\<lambda>_. NaN),
      bollinger_lband = map (\<lambda>_. NaN),
      bollinger_mavg = map (\<lambda>_. NaN),
      stoch = (\<lambda>high low close. map (\<lambda>_. NaN) close),
      stoch_signal = (\<lambda>high low close. map (\<lambda>_. NaN) close)\<rparr>"

definition one_row_frame :: frame where
  "one_row_frame =
     \<lparr>index = [1],
      columns = [(''open'', Floats [Fin 10]), (''high'', Floats [Fin 11]),
                 (''low'', Floats [Fin 9]), (''close'', Floats [Fin 10]),
                 (''volume'', Floats [Fin 1000]), (''Name'', Strings [''ACME''])]\<rparr>"

definition one_frame_store :: store where
  \<comment> \<open>the frame above at the address 0, and at every other address\<close>
  "one_frame_store = (\<lambda>a. one_row_frame)"

definition duplicate_date_rows :: "row list" where
  \<comment> \<open>22 rows of one symbol with rising closes; the last two share the day 21\<close>
  "duplicate_date_rows =
     map (\<lambda>d. plain_row d ''ACME'' (of_int d)) [1..21] @ [plain_row 21 ''ACME'' 22]"

section \<open>Properties of the column check\<close>

lemma set_rename:
  "old_col \<in> set cols \<Longrightarrow>
     set (rename old_col new_col cols) = insert new_col (set cols - {old_col})"
  by (auto simp: rename_def)

text \<open>
  A name \<open>R\<close> that the table never renames away is in the header after the loop exactly
  when it was there before or one of its synonyms was. The table must have distinct keys,
  and a key that is also a target must be mapped to itself.
\<close>

lemma rename_columns_mem:
  assumes "distinct (map fst m)"
    and "\<forall>(k, t) \<in> set m. \<forall>(k', t') \<in> set m. k' = t \<longrightarrow> t' = t"
    and "\<forall>(k, t) \<in> set m. k = R \<longrightarrow> t = R"
  shows "R \<in> set (rename_columns m cols) \<longleftrightarrow>
           R \<in> set cols \<or> (\<exists>k. (k, R) \<in> set m \<and> k \<in> set cols)"
  using assms
proof (induction m arbitrary: cols)
  case Nil
  then show ?case by simp
next
  case (Cons p m)
  obtain k t where p: "p = (k, t)" by (cases p)
  let ?cols' = "if k \<in> set cols \<and> t \<notin> set cols then rename k t cols else cols"
  have d: "distinct (map fst m)" and kfresh: "k \<notin> fst ` set m"
    using Cons.prems(1) by (auto simp: p)
  have c: "\<forall>(k, t) \<in> set m. \<forall>(k', t') \<in> set m. k' = t \<longrightarrow> t' = t"
    using Cons.prems(2) by auto
  have r: "\<forall>(k, t) \<in> set m. k = R \<longrightarrow> t = R"
    using Cons.prems(3) by auto
  have IH: "R \<in> set (rename_columns m ?cols') \<longleftrightarrow>
              R \<in> set ?cols' \<or> (\<exists>k'. (k', R) \<in> set m \<and> k' \<in> set ?cols')"
    by (rule Cons.IH [OF d c r])
  have kR: "k = R \<Longrightarrow> t = R"
    using Cons.prems(3) by (auto simp: p)
  have tkey: "\<And>t'. (t, t') \<in> set m \<Longrightarrow> t' = t"
    using Cons.prems(2) by (fastforce simp: p)
  show ?case
  proof (cases "k \<in> set cols \<and> t \<notin> set cols")
    case False
    then show ?thesis using IH by (auto simp: p)
  next
    case True
    then have s: "set ?cols' = insert t (set cols - {k})"
      by (simp add: set_rename)
    have kt: "k \<noteq> t" using True by auto
    have nk: "\<And>t'. (k, t') \<notin> set m"
      using kfresh by force
    show ?thesis
    proof
      assume "R \<in> set (rename_columns (p # m) cols)"
      then have "R \<in> set (rename_columns m ?cols')" by (simp add: p)
      then consider "R \<in> set ?cols'" | k' where "(k', R) \<in> set m" "k' \<in> set ?cols'"
        using IH by blast
      then show "R \<in> set cols \<or> (\<exists>k. (k, R) \<in> set (p # m) \<and> k \<in> set cols)"
      proof cases
        case 1
        then show ?thesis using s True by (auto simp: p)
      next
        case 2
        then show ?thesis using s True tkey by (auto simp: p)
      qed
    next
      assume a: "R \<in> set cols \<or> (\<exists>k. (k, R) \<in> set (p # m) \<and> k \<in> set cols)"
      have "R \<in> set ?cols' \<or> (\<exists>k'. (k', R) \<in> set m \<and> k' \<in> set ?cols')"
      proof (cases "R \<in> set cols")
        case True
        then show ?thesis using s kR kt by auto
      next
        case False
        then obtain k' where k': "(k', R) \<in> set (p # m)" "k' \<in> set cols"
          using a by blast
        show ?thesis
        proof (cases "(k', R) = p")
          case True
          then show ?thesis using s by (auto simp: p)
        next
          case False
          then have "(k', R) \<in> set m" using k' by simp
          moreover have "k' \<noteq> k" using nk calculation by blast
          ultimately show ?thesis using s k' by auto
        qed
      qed
      then show "R \<in> set (rename_columns (p # m) cols)"
        using IH by (simp add: p)
    qed
  qed
qed

lemma column_mapping_ok:
  "distinct (map fst column_mapping)"
  "\<forall>(k, t) \<in> set column_mapping. \<forall>(k', t') \<in> set column_mapping. k' = t \<longrightarrow> t' = t"
  by (simp_all add: column_mapping_def)

lemma required_not_renamed:
  "R \<in> set required_columns \<Longrightarrow> \<forall>(k, t) \<in> set column_mapping. k = R \<longrightarrow> t = R"
  by (auto simp: column_mapping_def required_columns_def)

lemma required_after_rename:
  assumes "R \<in> set required_columns"
  shows "R \<in> set (rename_columns column_mapping cols) \<longleftrightarrow>
           R \<in> set cols \<or> (\<exists>k. (k, R) \<in> set column_mapping \<and> k \<in> set cols)"
  by (rule rename_columns_mem [OF column_mapping_ok required_not_renamed [OF assms]])

text \<open>
  Claim C6, as the code has it. The synonym table is matched by exact string comparison:
  \<open>process_data\<close> raises the missing-columns \<open>ValueError\<close> exactly when some required
  column is in the header neither under its own name nor under one of the table's
  (lower-case) synonyms for it. No case folding takes place.
\<close>

theorem process_data_columns_raises_iff:
  "isl (process_data_columns cols) \<longleftrightarrow>
     (\<exists>R \<in> set required_columns.
        R \<notin> set cols \<and> (\<forall>k. (k, R) \<in> set column_mapping \<longrightarrow> k \<notin> set cols))"
proof -
  have "isl (process_data_columns cols) \<longleftrightarrow>
          (\<exists>R \<in> set required_columns. R \<notin> set (rename_columns column_mapping cols))"
    by (auto simp: process_data_columns_def missing_columns_def Let_def filter_empty_conv)
  also have "\<dots> \<longleftrightarrow> (\<exists>R \<in> set required_columns.
        R \<notin> set cols \<and> (\<forall>k. (k, R) \<in> set column_mapping \<longrightarrow> k \<notin> set cols))"
    using required_after_rename by blast
  finally show ?thesis .
qed

theorem process_data_columns_raises_iff_witness:
  "\<not> isl (process_data_columns
       [''timestamp'', ''ticker'', ''open'', ''high'', ''low'', ''close'', ''volume''])
   \<and> isl (process_data_columns
       [''Timestamp'', ''ticker'', ''open'', ''high'', ''low'', ''close'', ''volume''])"
  using process_data_columns_raises_iff
          [of "[''timestamp'', ''ticker'', ''open'', ''high'', ''low'', ''close'', ''volume'']"]
        process_data_columns_raises_iff
          [of "[''Timestamp'', ''ticker'', ''open'', ''high'', ''low'', ''close'', ''volume'']"]
  by (simp add: required_columns_def column_mapping_def)

text \<open>
  Claim C6 as stated fails: a header that spells the required names in upper case is
  rejected, with every required column reported missing.
\<close>

theorem upper_case_header_rejected:
  "process_data_columns
     [''DATE'', ''TICKER'', ''OPEN'', ''HIGH'', ''LOW'', ''CLOSE'', ''VOLUME'']
   = Inl (MissingColumns
       [''Date'', ''Name'', ''Open'', ''High'', ''Low'', ''Close'', ''Volume''])"
  by (simp add: process_data_columns_def column_mapping_def missing_columns_def
      required_columns_def)

section \<open>Properties of the pattern scan\<close>

lemma iloc_nat: "i < length xs \<Longrightarrow> iloc xs (int i) = Inr (xs ! i)"
  by (simp add: iloc_def)

lemma iloc_neg:
  "0 < k \<Longrightarrow> k \<le> length xs \<Longrightarrow> iloc xs (- int k) = Inr (xs ! (length xs - k))"
  by (auto simp: iloc_def Let_def nat_diff_distrib' of_nat_diff)

lemma length_iloc_slice:
  "window \<le> i \<Longrightarrow> i \<le> length xs \<Longrightarrow> length (iloc_slice xs (i - window) i) = window"
  by (simp add: iloc_slice_def)

lemma nth_iloc_slice:
  "window \<le> i \<Longrightarrow> i \<le> length xs \<Longrightarrow> k < window \<Longrightarrow>
     iloc_slice xs (i - window) i ! k = xs ! (i - window + k)"
  by (simp add: iloc_slice_def)

lemma window_events_eq:
  assumes "2 \<le> window" "window \<le> i" "i < length sd"
  shows "window_events sd window i =
           Inr (trend_events (Date (sd ! i)) (map Close (iloc_slice sd (i - window) i))
              @ golden_cross_events (Date (sd ! i)) (sd ! (i - 2)) (sd ! (i - 1))
              @ death_cross_events (Date (sd ! i)) (sd ! (i - 2)) (sd ! (i - 1))
              @ rsi_events (Date (sd ! i)) (sd ! (i - 1))
              @ bollinger_events (Date (sd ! i)) (Close (sd ! i)) (sd ! (i - 1)))"
proof -
  let ?w = "iloc_slice sd (i - window) i"
  have len: "length ?w = window"
    using assms by (simp add: length_iloc_slice)
  have "iloc ?w (- int 2) = Inr (?w ! (length ?w - 2))"
    by (rule iloc_neg) (use assms len in simp_all)
  moreover have "?w ! (window - 2) = sd ! (i - 2)"
    using assms by (simp add: nth_iloc_slice)
  ultimately have b: "iloc ?w (- 2) = Inr (sd ! (i - 2))"
    using len by simp
  have "iloc ?w (- int 1) = Inr (?w ! (length ?w - 1))"
    by (rule iloc_neg) (use assms len in simp_all)
  moreover have "?w ! (window - 1) = sd ! (i - 1)"
    using assms by (simp add: nth_iloc_slice)
  ultimately have l: "iloc ?w (- 1) = Inr (sd ! (i - 1))"
    using len by simp
  show ?thesis
    using assms by (simp add: window_events_def iloc_nat b l Let_def)
qed

lemma date_trend_events: "e \<in> set (trend_events d cs) \<Longrightarrow> date e = d"
  by (auto simp: trend_events_def pattern_event_def split: if_splits)

lemma date_golden_cross_events: "e \<in> set (golden_cross_events d p l) \<Longrightarrow> date e = d"
  by (auto simp: golden_cross_events_def pattern_event_def split: if_splits)

lemma date_death_cross_events: "e \<in> set (death_cross_events d p l) \<Longrightarrow> date e = d"
  by (auto simp: death_cross_events_def pattern_event_def split: if_splits)

lemma date_rsi_events: "e \<in> set (rsi_events d l) \<Longrightarrow> date e = d"
  by (auto simp: rsi_events_def pattern_event_def split: if_splits)

lemma date_bollinger_events: "e \<in> set (bollinger_events d c l) \<Longrightarrow> date e = d"
  by (auto simp: bollinger_events_def pattern_event_def split: if_splits)

lemmas date_rule_events =
  date_trend_events date_golden_cross_events date_death_cross_events date_rsi_events
  date_bollinger_events

lemma window_events_date:
  assumes "2 \<le> window" "window \<le> i" "i < length sd"
    and "window_events sd window i = Inr evs" "e \<in> set evs"
  shows "date e = Date (sd ! i)"
  using assms(4,5) unfolding window_events_eq [OF assms(1-3)]
  by (auto dest: date_rule_events)

lemma window_events_total:
  assumes "2 \<le> window" "window \<le> i" "i < length sd"
  shows "\<exists>evs. window_events sd window i = Inr evs"
  by (simp add: window_events_eq [OF assms])

lemma sorted_same_key:
  "\<forall>x \<in> set xs. f x = (c::int) \<Longrightarrow> sorted (map f xs)"
  by (induction xs) auto

lemma patterns_loop_sorted:
  assumes "2 \<le> window"
    and "\<forall>i \<in> set idx. window \<le> i \<and> i < length sd"
    and "sorted idx" and "sorted (map Date sd)"
    and "sorted (map date acc)"
    and "\<forall>e \<in> set acc. \<forall>i \<in> set idx. date e \<le> Date (sd ! i)"
  shows "\<exists>evs. patterns_loop sd window idx acc = Inr evs \<and> sorted (map date evs)"
  using assms(2,3,5,6)
proof (induction idx arbitrary: acc)
  case Nil
  then show ?case by simp
next
  case (Cons i idx)
  have i: "window \<le> i" "i < length sd" using Cons.prems(1) by auto
  obtain evs where evs: "window_events sd window i = Inr evs"
    using window_events_total [OF assms(1) i] by blast
  have d: "\<forall>e \<in> set evs. date e = Date (sd ! i)"
    using window_events_date [OF assms(1) i evs] by blast
  have s1: "sorted (map date (acc @ evs))"
    using Cons.prems(3,4) d sorted_same_key [of evs date "Date (sd ! i)"]
    by (auto simp: sorted_append)
  have mono: "\<forall>j \<in> set idx. Date (sd ! i) \<le> Date (sd ! j)"
  proof
    fix j assume j: "j \<in> set idx"
    then have "i \<le> j" using Cons.prems(2) by auto
    moreover have "j < length sd" using Cons.prems(1) j by auto
    ultimately have "map Date sd ! i \<le> map Date sd ! j"
      using assms(4) by (intro sorted_nth_mono) simp_all
    then show "Date (sd ! i) \<le> Date (sd ! j)"
      using i \<open>j < length sd\<close> by simp
  qed
  have s2: "\<forall>e \<in> set (acc @ evs). \<forall>j \<in> set idx. date e \<le> Date (sd ! j)"
    using Cons.prems(4) d mono by auto
  have "\<exists>r. patterns_loop sd window idx (acc @ evs) = Inr r \<and> sorted (map date r)"
    using Cons.IH [OF _ _ s1 s2] Cons.prems(1,2) by auto
  then show ?case by (simp add: evs)
qed

lemma symbol_rows_sorted:
  "sorted (map Date df) \<Longrightarrow> sorted (map Date (symbol_rows s df))"
  by (simp add: symbol_rows_def sorted_filter)

text \<open>
  Claim C3, as the code has it. With the default window of 20, \<open>identify_patterns\<close>
  raises exactly when the frame has no row of the symbol (the \<open>ValueError\<close> "No data
  found"); for every symbol with at least one row it returns a sequence of events, in
  date order when the frame is sorted by date, as \<open>process_data\<close> leaves it. A series
  with 1 to 19 bars is not an error.
\<close>

theorem identify_patterns_error_iff_no_rows:
  assumes "sorted (map Date df)"
  shows "(symbol_rows s df = [] \<longrightarrow> identify_patterns df s 20 = Inl (NoData s)) \<and>
         (symbol_rows s df \<noteq> [] \<longrightarrow>
            (\<exists>evs. identify_patterns df s 20 = Inr evs \<and> sorted (map date evs)))"
proof -
  let ?sd = "symbol_rows s df"
  have "\<exists>evs. patterns_loop ?sd 20 [20..<length ?sd] [] = Inr evs \<and> sorted (map date evs)"
    by (rule patterns_loop_sorted)
       (use assms in \<open>simp_all add: symbol_rows_sorted\<close>)
  then show ?thesis
    by (simp add: identify_patterns_def Let_def)
qed

lemma sorted_rising_rows: "sorted (map Date rising_rows)"
  by (simp add: rising_rows_def plain_row_def comp_def)

theorem identify_patterns_error_iff_no_rows_witness:
  "sorted (map Date rising_rows) \<and> symbol_rows ''ACME'' rising_rows \<noteq> [] \<and>
   symbol_rows ''NONE'' rising_rows = [] \<and>
   identify_patterns rising_rows ''NONE'' 20 = Inl (NoData ''NONE'') \<and>
   (\<exists>evs. identify_patterns rising_rows ''ACME'' 20 = Inr evs \<and> sorted (map date evs))"
proof -
  have h: "sorted (map Date rising_rows)"
    by (rule sorted_rising_rows)
  have n: "symbol_rows ''ACME'' rising_rows \<noteq> []"
    by (simp add: symbol_rows_def rising_rows_def plain_row_def upto.simps)
  have m: "symbol_rows ''NONE'' rising_rows = []"
    by (simp add: symbol_rows_def rising_rows_def plain_row_def)
  show ?thesis
    using h n m identify_patterns_error_iff_no_rows [OF h, of "''ACME''"]
      identify_patterns_error_iff_no_rows [OF h, of "''NONE''"]
    by simp
qed

text \<open>
  Claim C3 as stated fails: a series of two bars has fewer than 20 bars, and no error
  is raised for it.
\<close>

theorem two_bars_no_error:
  "identify_patterns [plain_row 1 ''ACME'' 10, plain_row 2 ''ACME'' 11] ''ACME'' 20 = Inr []"
  by (simp add: identify_patterns_def symbol_rows_def plain_row_def)

text \<open>
  Claim C4, as the code has it. For a symbol with fewer than 20 rows the result is the
  empty sequence of events, except when the symbol has no row at all: then the guard of
  line 101 raises.
\<close>

theorem identify_patterns_short:
  assumes "length (symbol_rows s df) < 20"
  shows "identify_patterns df s 20 =
           (if symbol_rows s df = [] then Inl (NoData s) else Inr [])"
  using assms by (simp add: identify_patterns_def Let_def)

theorem identify_patterns_short_witness:
  "length (symbol_rows ''ACME'' [plain_row 1 ''ACME'' 10, plain_row 1 ''B'' 7]) < 20 \<and>
   identify_patterns [plain_row 1 ''ACME'' 10, plain_row 1 ''B'' 7] ''ACME'' 20 = Inr []"
proof -
  have h: "length (symbol_rows ''ACME'' [plain_row 1 ''ACME'' 10, plain_row 1 ''B'' 7]) < 20"
    by (simp add: symbol_rows_def plain_row_def)
  have n: "symbol_rows ''ACME'' [plain_row 1 ''ACME'' 10, plain_row 1 ''B'' 7] \<noteq> []"
    by (simp add: symbol_rows_def plain_row_def)
  show ?thesis
    using h n identify_patterns_short [OF h] by simp
qed

text \<open>
  Claim C4 as stated fails on the empty series: a symbol without rows raises.
\<close>

theorem no_rows_raises:
  "identify_patterns [plain_row 1 ''ACME'' 10] ''OTHER'' 20 = Inl (NoData ''OTHER'')"
  by (simp add: identify_patterns_def symbol_rows_def plain_row_def)

text \<open>
  The scenario of the spec: 25 bars with strictly rising closes. Each of the passes for
  the indexes 20 to 24 appends one event, Strong Uptrend.
\<close>

lemma rising_rows_patterns:
  "identify_patterns rising_rows ''ACME'' 20 =
     Inr (map (\<lambda>d. pattern_event d Strong_Uptrend) [21..25])"
  apply (simp add: identify_patterns_def symbol_rows_def rising_rows_def plain_row_def upto.simps upt_rec[of 20] upt_rec[of "Suc _"])
  apply (simp add: window_events_def iloc_def iloc_slice_def Let_def trend_events_def diff_def dropna_def fsub_def fgt_def golden_cross_events_def death_cross_events_def rsi_events_def bollinger_events_def fge_def)
  done

section \<open>The rules of one pass\<close>

lemma fless_asym: "fless a b \<Longrightarrow> \<not> fless b a"
  by (cases a; cases b) simp_all

lemma rsi_thresholds_exclusive: "fgt x (Fin 70) \<Longrightarrow> \<not> fless x (Fin 30)"
  by (cases x) (simp_all add: fgt_def)

lemma trend_events_cases:
  "trend_events d cs = [] \<or> (\<exists>p \<in> {Strong_Uptrend, Strong_Downtrend, Consolidation}.
      trend_events d cs = [pattern_event d p])"
  by (simp add: trend_events_def)

lemma consolidation_only_without_trend:
  assumes "Consolidation \<in> pattern ` set (trend_events d cs)"
  shows "\<not> list_all (\<lambda>x. fgt x (Fin 0)) (dropna (diff cs)) \<and>
         \<not> list_all (\<lambda>x. fless x (Fin 0)) (dropna (diff cs))"
  using assms by (auto simp: trend_events_def pattern_event_def split: if_splits)

lemma cross_events_cases:
  "golden_cross_events d p l @ death_cross_events d p l = [] \<or>
   (\<exists>q \<in> {Golden_Cross, Death_Cross}.
      golden_cross_events d p l @ death_cross_events d p l = [pattern_event d q])"
  using fless_asym [of "SMA_200 l" "SMA_50 l"]
  by (auto simp: golden_cross_events_def death_cross_events_def fgt_def)

lemma rsi_events_cases:
  "rsi_events d l = [] \<or>
   (\<exists>q \<in> {Overbought, Oversold}. rsi_events d l = [pattern_event d q])"
  by (simp add: rsi_events_def)

lemma bollinger_events_cases:
  "bollinger_events d c l = [] \<or>
   (\<exists>q \<in> {Above_Upper_Band, Below_Lower_Band}. bollinger_events d c l = [pattern_event d q])"
  by (simp add: bollinger_events_def)

lemma pattern_pattern_event [simp]: "pattern (pattern_event d p) = p"
  by (simp add: pattern_event_def)

lemma groups_at_most_one:
  assumes t: "t = [] \<or> (\<exists>p \<in> {Strong_Uptrend, Strong_Downtrend, Consolidation}. t = [pattern_event d p])"
    and c: "c = [] \<or> (\<exists>p \<in> {Golden_Cross, Death_Cross}. c = [pattern_event d p])"
    and r: "r = [] \<or> (\<exists>p \<in> {Overbought, Oversold}. r = [pattern_event d p])"
    and b: "b = [] \<or> (\<exists>p \<in> {Above_Upper_Band, Below_Lower_Band}. b = [pattern_event d p])"
  shows "length (filter (\<lambda>e. pattern e \<in> {Strong_Uptrend, Strong_Downtrend, Consolidation})
            (t @ c @ r @ b)) \<le> 1"
    and "length (filter (\<lambda>e. pattern e \<in> {Golden_Cross, Death_Cross}) (t @ c @ r @ b)) \<le> 1"
    and "length (filter (\<lambda>e. pattern e \<in> {Overbought, Oversold}) (t @ c @ r @ b)) \<le> 1"
    and "length (filter (\<lambda>e. pattern e \<in> {Above_Upper_Band, Below_Lower_Band})
            (t @ c @ r @ b)) \<le> 1"
    and "length (t @ c @ r @ b) \<le> 4"
  using t c r b by auto

lemma window_events_pass:
  assumes "20 \<le> i" "i < length sd"
  shows "\<exists>evs. window_events sd 20 i = Inr evs \<and>
     length (filter (\<lambda>e. pattern e \<in> {Strong_Uptrend, Strong_Downtrend, Consolidation}) evs)
       \<le> 1 \<and>
     (Consolidation \<in> pattern ` set evs \<longrightarrow>
        \<not> list_all (\<lambda>x. fgt x (Fin 0)) (dropna (diff (map Close (iloc_slice sd (i - 20) i))))
        \<and> \<not> list_all (\<lambda>x. fless x (Fin 0))
              (dropna (diff (map Close (iloc_slice sd (i - 20) i))))) \<and>
     length (filter (\<lambda>e. pattern e \<in> {Golden_Cross, Death_Cross}) evs) \<le> 1 \<and>
     length (filter (\<lambda>e. pattern e \<in> {Overbought, Oversold}) evs) \<le> 1 \<and>
     length (filter (\<lambda>e. pattern e \<in> {Above_Upper_Band, Below_Lower_Band}) evs) \<le> 1 \<and>
     length evs \<le> 4"
proof -
  define d where "d = Date (sd ! i)"
  define cs where "cs = map Close (iloc_slice sd (i - 20) i)"
  define t where "t = trend_events d cs"
  define c where "c = golden_cross_events d (sd ! (i - 2)) (sd ! (i - 1))
            @ death_cross_events d (sd ! (i - 2)) (sd ! (i - 1))"
  define r where "r = rsi_events d (sd ! (i - 1))"
  define b where "b = bollinger_events d (Close (sd ! i)) (sd ! (i - 1))"
  have eq: "window_events sd 20 i = Inr (t @ c @ r @ b)"
    using window_events_eq [of 20 i sd] assms by (simp add: d_def cs_def t_def c_def r_def b_def)
  have ct: "t = [] \<or> (\<exists>p \<in> {Strong_Uptrend, Strong_Downtrend, Consolidation}.
      t = [pattern_event d p])"
    unfolding t_def by (rule trend_events_cases)
  have cc: "c = [] \<or> (\<exists>p \<in> {Golden_Cross, Death_Cross}. c = [pattern_event d p])"
    unfolding c_def by (rule cross_events_cases)
  have cr: "r = [] \<or> (\<exists>p \<in> {Overbought, Oversold}. r = [pattern_event d p])"
    unfolding r_def by (rule rsi_events_cases)
  have cb: "b = [] \<or> (\<exists>p \<in> {Above_Upper_Band, Below_Lower_Band}. b = [pattern_event d p])"
    unfolding b_def by (rule bollinger_events_cases)
  note g = groups_at_most_one [OF ct cc cr cb]
  have other: "Consolidation \<notin> pattern ` set (c @ r @ b)"
    using cc cr cb by auto
  have cons: "Consolidation \<in> pattern ` set (t @ c @ r @ b) \<longrightarrow>
        \<not> list_all (\<lambda>x. fgt x (Fin 0)) (dropna (diff cs))
        \<and> \<not> list_all (\<lambda>x. fless x (Fin 0)) (dropna (diff cs))"
  proof
    assume "Consolidation \<in> pattern ` set (t @ c @ r @ b)"
    then have "Consolidation \<in> pattern ` set (trend_events d cs)"
      using other by (auto simp: t_def)
    then show "\<not> list_all (\<lambda>x. fgt x (Fin 0)) (dropna (diff cs))
        \<and> \<not> list_all (\<lambda>x. fless x (Fin 0)) (dropna (diff cs))"
      by (rule consolidation_only_without_trend)
  qed
  show ?thesis
    unfolding eq using g cons unfolding cs_def by blast
qed

lemma upto_20: "[1..25] = [1, 2, 3, 4, 5, 6, 7, 8, 9, 10, 11, 12, 13, 14, 15, 16, 17, 18, 19,
    20, 21, 22, 23, 24, 25::int]"
  by (simp add: upto.simps)

section \<open>The events of one date\<close>

lemma patterns_loop_concat:
  assumes "2 \<le> window" "\<forall>i \<in> set idx. window \<le> i \<and> i < length sd"
  shows "patterns_loop sd window idx acc =
           Inr (acc @ concat (map (\<lambda>i. projr (window_events sd window i)) idx))"
  using assms(2)
proof (induction idx arbitrary: acc)
  case Nil
  then show ?case by simp
next
  case (Cons i idx)
  have i: "window \<le> i" "i < length sd" using Cons.prems by auto
  obtain evs where evs: "window_events sd window i = Inr evs"
    using window_events_total [OF assms(1) i] by blast
  have "patterns_loop sd window idx (acc @ evs) =
          Inr ((acc @ evs) @ concat (map (\<lambda>i. projr (window_events sd window i)) idx))"
    using Cons.IH Cons.prems by simp
  then show ?case by (simp add: evs)
qed

lemma filter_date_concat:
  assumes "\<forall>i \<in> set idx. \<forall>e \<in> set (f i). date e = D i" "distinct (map D idx)"
  shows "filter (\<lambda>e. date e = d) (concat (map f idx)) = [] \<or>
         (\<exists>i \<in> set idx. filter (\<lambda>e. date e = d) (concat (map f idx)) = f i)"
  using assms
proof (induction idx)
  case Nil
  then show ?case by simp
next
  case (Cons j idx)
  have IH: "filter (\<lambda>e. date e = d) (concat (map f idx)) = [] \<or>
         (\<exists>i \<in> set idx. filter (\<lambda>e. date e = d) (concat (map f idx)) = f i)"
    using Cons by simp
  have fj: "\<forall>e \<in> set (f j). date e = D j" using Cons.prems(1) by simp
  show ?case
  proof (cases "D j = d")
    case True
    have "filter (\<lambda>e. date e = d) (f j) = f j"
      using fj True by (simp add: filter_id_conv)
    moreover have "filter (\<lambda>e. date e = d) (concat (map f idx)) = []"
    proof -
      have "D j \<notin> D ` set idx"
        using Cons.prems(2) by simp
      then have "\<forall>i \<in> set idx. D i \<noteq> d"
        using True by (metis imageI)
      then have "\<forall>e \<in> set (concat (map f idx)). date e \<noteq> d"
        using Cons.prems(1) by auto
      then show ?thesis by (simp add: filter_empty_conv)
    qed
    ultimately show ?thesis by simp
  next
    case False
    then have "filter (\<lambda>e. date e = d) (f j) = []"
      using fj by (simp add: filter_empty_conv)
    then show ?thesis using IH by auto
  qed
qed

lemma distinct_dates_of_indexes:
  assumes "distinct (map Date sd)"
  shows "distinct (map (\<lambda>i. Date (sd ! i)) [k..<length sd])"
proof -
  have "inj_on (\<lambda>i. Date (sd ! i)) (set [k..<length sd])"
  proof (rule inj_onI)
    fix i j
    assume "i \<in> set [k..<length sd]" "j \<in> set [k..<length sd]"
      and e: "Date (sd ! i) = Date (sd ! j)"
    then have l: "i < length (map Date sd)" "j < length (map Date sd)" by simp_all
    then have "map Date sd ! i = map Date sd ! j" using e by simp
    then show "i = j"
      using nth_eq_iff_index_eq [OF assms l] by simp
  qed
  then show ?thesis by (simp add: distinct_map)
qed

lemma events_of_one_date:
  assumes "sd \<noteq> []" "distinct (map Date sd)" "symbol_rows s sd' = sd"
  shows "\<exists>evs. identify_patterns sd' s 20 = Inr evs \<and>
     (\<forall>d. filter (\<lambda>e. date e = d) evs = [] \<or>
        (\<exists>i. 20 \<le> i \<and> i < length sd \<and>
           window_events sd 20 i = Inr (filter (\<lambda>e. date e = d) evs)))"
proof -
  let ?f = "\<lambda>i. projr (window_events sd 20 i)"
  let ?idx = "[20..<length sd]"
  have r: "identify_patterns sd' s 20 = Inr (concat (map ?f ?idx))"
    using patterns_loop_concat [of 20 ?idx sd "[]"] assms(1,3)
    by (simp add: identify_patterns_def Let_def)
  have dates: "\<forall>i \<in> set ?idx. \<forall>e \<in> set (?f i). date e = Date (sd ! i)"
  proof (intro ballI)
    fix i e assume i: "i \<in> set ?idx" and e: "e \<in> set (?f i)"
    then have b: "20 \<le> i" "i < length sd" by simp_all
    obtain evs where evs: "window_events sd 20 i = Inr evs"
      using window_events_total [of 20 i sd] b by auto
    show "date e = Date (sd ! i)"
      using window_events_date [of 20 i sd evs e] b evs e by simp
  qed
  have "\<forall>d. filter (\<lambda>e. date e = d) (concat (map ?f ?idx)) = [] \<or>
        (\<exists>i. 20 \<le> i \<and> i < length sd \<and>
           window_events sd 20 i = Inr (filter (\<lambda>e. date e = d) (concat (map ?f ?idx))))"
  proof
    fix d
    from filter_date_concat [OF dates distinct_dates_of_indexes [OF assms(2)], of d]
    show "filter (\<lambda>e. date e = d) (concat (map ?f ?idx)) = [] \<or>
        (\<exists>i. 20 \<le> i \<and> i < length sd \<and>
           window_events sd 20 i = Inr (filter (\<lambda>e. date e = d) (concat (map ?f ?idx))))"
    proof
      assume "filter (\<lambda>e. date e = d) (concat (map ?f ?idx)) = []"
      then show ?thesis by simp
    next
      assume "\<exists>i \<in> set ?idx. filter (\<lambda>e. date e = d) (concat (map ?f ?idx)) = ?f i"
      then obtain i where i: "i \<in> set ?idx"
        and fi: "filter (\<lambda>e. date e = d) (concat (map ?f ?idx)) = ?f i" by blast
      have b: "20 \<le> i" "i < length sd" using i by simp_all
      obtain evs where evs: "window_events sd 20 i = Inr evs"
        using window_events_total [of 20 i sd] b by auto
      then have "window_events sd 20 i = Inr (?f i)" by simp
      then show ?thesis using b fi by auto
    qed
  qed
  then show ?thesis using r by simp
qed

text \<open>
  Claim C5, as the code has it. One pass of the loop body over the window
  \<open>[i - 20, i)\<close> returns, and appends at most one event of the group Strong Uptrend,
  Strong Downtrend and Consolidation (Consolidation only when neither trend test holds),
  at most one of Golden Cross and Death Cross, at most one of Overbought and Oversold,
  and at most one of Above Upper Band and Below Lower Band: at most four events. Each row
  from index 20 on has its own pass, so the bound holds for a date when the rows of the
  symbol have distinct dates: then the events \<open>identify_patterns\<close> returns for one
  date are those of one pass.
\<close>

theorem window_events_groups:
  assumes "20 \<le> i" "i < length sd"
  shows "(\<exists>evs. window_events sd 20 i = Inr evs \<and>
     length (filter (\<lambda>e. pattern e \<in> {Strong_Uptrend, Strong_Downtrend, Consolidation}) evs)
       \<le> 1 \<and>
     (Consolidation \<in> pattern ` set evs \<longrightarrow>
        \<not> list_all (\<lambda>x. fgt x (Fin 0)) (dropna (diff (map Close (iloc_slice sd (i - 20) i))))
        \<and> \<not> list_all (\<lambda>x. fless x (Fin 0))
              (dropna (diff (map Close (iloc_slice sd (i - 20) i))))) \<and>
     length (filter (\<lambda>e. pattern e \<in> {Golden_Cross, Death_Cross}) evs) \<le> 1 \<and>
     length (filter (\<lambda>e. pattern e \<in> {Overbought, Oversold}) evs) \<le> 1 \<and>
     length (filter (\<lambda>e. pattern e \<in> {Above_Upper_Band, Below_Lower_Band}) evs) \<le> 1 \<and>
     length evs \<le> 4) \<and>
   (\<forall>df s. symbol_rows s df = sd \<and> distinct (map Date sd) \<longrightarrow>
      (\<exists>evs. identify_patterns df s 20 = Inr evs \<and>
         (\<forall>d.
            length (filter (\<lambda>e. date e = d \<and>
               pattern e \<in> {Strong_Uptrend, Strong_Downtrend, Consolidation}) evs) \<le> 1 \<and>
            length (filter (\<lambda>e. date e = d \<and>
               pattern e \<in> {Golden_Cross, Death_Cross}) evs) \<le> 1 \<and>
            length (filter (\<lambda>e. date e = d \<and>
               pattern e \<in> {Overbought, Oversold}) evs) \<le> 1 \<and>
            length (filter (\<lambda>e. date e = d \<and>
               pattern e \<in> {Above_Upper_Band, Below_Lower_Band}) evs) \<le> 1 \<and>
            length (filter (\<lambda>e. date e = d) evs) \<le> 4)))"
proof (intro conjI allI impI)
  show "\<exists>evs. window_events sd 20 i = Inr evs \<and>
     length (filter (\<lambda>e. pattern e \<in> {Strong_Uptrend, Strong_Downtrend, Consolidation}) evs)
       \<le> 1 \<and>
     (Consolidation \<in> pattern ` set evs \<longrightarrow>
        \<not> list_all (\<lambda>x. fgt x (Fin 0)) (dropna (diff (map Close (iloc_slice sd (i - 20) i))))
        \<and> \<not> list_all (\<lambda>x. fless x (Fin 0))
              (dropna (diff (map Close (iloc_slice sd (i - 20) i))))) \<and>
     length (filter (\<lambda>e. pattern e \<in> {Golden_Cross, Death_Cross}) evs) \<le> 1 \<and>
     length (filter (\<lambda>e. pattern e \<in> {Overbought, Oversold}) evs) \<le> 1 \<and>
     length (filter (\<lambda>e. pattern e \<in> {Above_Upper_Band, Below_Lower_Band}) evs) \<le> 1 \<and>
     length evs \<le> 4"
    by (rule window_events_pass [OF assms])
next
  fix df :: "row list" and s
  assume a: "symbol_rows s df = sd \<and> distinct (map Date sd)"
  have ne: "sd \<noteq> []" using assms(2) by auto
  obtain evs where evs: "identify_patterns df s 20 = Inr evs"
    and one: "\<forall>d. filter (\<lambda>e. date e = d) evs = [] \<or>
        (\<exists>j. 20 \<le> j \<and> j < length sd \<and>
           window_events sd 20 j = Inr (filter (\<lambda>e. date e = d) evs))"
    using events_of_one_date [of sd s df] ne a by blast
  have bounds:
      "length (filter (\<lambda>e. pattern e \<in> {Strong_Uptrend, Strong_Downtrend, Consolidation})
         (filter (\<lambda>e. date e = d) evs)) \<le> 1 \<and>
       length (filter (\<lambda>e. pattern e \<in> {Golden_Cross, Death_Cross})
         (filter (\<lambda>e. date e = d) evs)) \<le> 1 \<and>
       length (filter (\<lambda>e. pattern e \<in> {Overbought, Oversold})
         (filter (\<lambda>e. date e = d) evs)) \<le> 1 \<and>
       length (filter (\<lambda>e. pattern e \<in> {Above_Upper_Band, Below_Lower_Band})
         (filter (\<lambda>e. date e = d) evs)) \<le> 1 \<and>
       length (filter (\<lambda>e. date e = d) evs) \<le> 4" for d
  proof -
    define F where "F = filter (\<lambda>e. date e = d) evs"
    consider "F = []" | j where "20 \<le> j" "j < length sd" "window_events sd 20 j = Inr F"
      using one unfolding F_def by blast
    then have "length (filter (\<lambda>e. pattern e \<in> {Strong_Uptrend, Strong_Downtrend,
           Consolidation}) F) \<le> 1 \<and>
       length (filter (\<lambda>e. pattern e \<in> {Golden_Cross, Death_Cross}) F) \<le> 1 \<and>
       length (filter (\<lambda>e. pattern e \<in> {Overbought, Oversold}) F) \<le> 1 \<and>
       length (filter (\<lambda>e. pattern e \<in> {Above_Upper_Band, Below_Lower_Band}) F) \<le> 1 \<and>
       length F \<le> 4"
    proof cases
      case 1
      then show ?thesis by simp
    next
      case 2
      obtain evs' where e: "window_events sd 20 j = Inr evs'"
        and p: "length (filter (\<lambda>e. pattern e \<in> {Strong_Uptrend, Strong_Downtrend,
             Consolidation}) evs') \<le> 1"
          "length (filter (\<lambda>e. pattern e \<in> {Golden_Cross, Death_Cross}) evs') \<le> 1"
          "length (filter (\<lambda>e. pattern e \<in> {Overbought, Oversold}) evs') \<le> 1"
          "length (filter (\<lambda>e. pattern e \<in> {Above_Upper_Band, Below_Lower_Band}) evs') \<le> 1"
          "length evs' \<le> 4"
        using window_events_pass [OF 2(1,2)] by blast
      have "evs' = F" using e 2(3) by simp
      then show ?thesis using p by (intro conjI) simp_all
    qed
    then show ?thesis unfolding F_def .
  qed
  have ff: "\<And>G d. filter (\<lambda>e. date e = d \<and> pattern e \<in> G) evs
              = filter (\<lambda>e. pattern e \<in> G) (filter (\<lambda>e. date e = d) evs)"
    by (simp only: filter_filter)
  have "\<forall>d.
            length (filter (\<lambda>e. date e = d \<and>
               pattern e \<in> {Strong_Uptrend, Strong_Downtrend, Consolidation}) evs) \<le> 1 \<and>
            length (filter (\<lambda>e. date e = d \<and>
               pattern e \<in> {Golden_Cross, Death_Cross}) evs) \<le> 1 \<and>
            length (filter (\<lambda>e. date e = d \<and>
               pattern e \<in> {Overbought, Oversold}) evs) \<le> 1 \<and>
            length (filter (\<lambda>e. date e = d \<and>
               pattern e \<in> {Above_Upper_Band, Below_Lower_Band}) evs) \<le> 1 \<and>
            length (filter (\<lambda>e. date e = d) evs) \<le> 4"
    unfolding ff using bounds by (rule allI)
  then show "\<exists>evs. identify_patterns df s 20 = Inr evs \<and>
         (\<forall>d.
            length (filter (\<lambda>e. date e = d \<and>
               pattern e \<in> {Strong_Uptrend, Strong_Downtrend, Consolidation}) evs) \<le> 1 \<and>
            length (filter (\<lambda>e. date e = d \<and>
               pattern e \<in> {Golden_Cross, Death_Cross}) evs) \<le> 1 \<and>
            length (filter (\<lambda>e. date e = d \<and>
               pattern e \<in> {Overbought, Oversold}) evs) \<le> 1 \<and>
            length (filter (\<lambda>e. date e = d \<and>
               pattern e \<in> {Above_Upper_Band, Below_Lower_Band}) evs) \<le> 1 \<and>
            length (filter (\<lambda>e. date e = d) evs) \<le> 4)"
    using evs by (intro exI [of _ evs] conjI)
qed

lemma rising_rows_distinct: "distinct (map Date rising_rows)"
  by (simp add: rising_rows_def plain_row_def comp_def upto_20)

lemma rising_rows_symbol: "symbol_rows ''ACME'' rising_rows = rising_rows"
  by (simp add: symbol_rows_def rising_rows_def plain_row_def)

theorem window_events_groups_witness:
  "(20::nat) \<le> 20 \<and> 20 < length rising_rows \<and>
   symbol_rows ''ACME'' rising_rows = rising_rows \<and> distinct (map Date rising_rows) \<and>
   window_events rising_rows 20 20 = Inr [pattern_event 21 Strong_Uptrend] \<and>
   (\<exists>evs. identify_patterns rising_rows ''ACME'' 20 = Inr evs \<and>
      length (filter (\<lambda>e. date e = 21) evs) \<le> 4)"
proof -
  have h: "(20::nat) \<le> 20" by simp
  have l: "20 < length rising_rows" by (simp add: rising_rows_def)
  note t = window_events_groups [OF h l]
  have v: "window_events rising_rows 20 20 = Inr [pattern_event 21 Strong_Uptrend]"
    using t
    by (simp add: rising_rows_def plain_row_def upto_20 window_events_def iloc_def
        iloc_slice_def Let_def trend_events_def diff_def dropna_def fsub_def fgt_def
        golden_cross_events_def death_cross_events_def rsi_events_def bollinger_events_def
        fge_def)
  have sd: "symbol_rows ''ACME'' rising_rows = rising_rows \<and> distinct (map Date rising_rows)"
    using rising_rows_symbol rising_rows_distinct by simp
  obtain evs where evs: "identify_patterns rising_rows ''ACME'' 20 = Inr evs"
    and b: "\<forall>d.
            length (filter (\<lambda>e. date e = d \<and>
               pattern e \<in> {Strong_Uptrend, Strong_Downtrend, Consolidation}) evs) \<le> 1 \<and>
            length (filter (\<lambda>e. date e = d \<and>
               pattern e \<in> {Golden_Cross, Death_Cross}) evs) \<le> 1 \<and>
            length (filter (\<lambda>e. date e = d \<and>
               pattern e \<in> {Overbought, Oversold}) evs) \<le> 1 \<and>
            length (filter (\<lambda>e. date e = d \<and>
               pattern e \<in> {Above_Upper_Band, Below_Lower_Band}) evs) \<le> 1 \<and>
            length (filter (\<lambda>e. date e = d) evs) \<le> 4"
    using t [THEN conjunct2, THEN spec, THEN spec, THEN mp, OF sd] by (elim exE conjE)
  have "length (filter (\<lambda>e. date e = 21) evs) \<le> 4"
    using b [THEN spec, of 21] by (elim conjE)
  then have "\<exists>evs. identify_patterns rising_rows ''ACME'' 20 = Inr evs \<and>
      length (filter (\<lambda>e. date e = 21) evs) \<le> 4"
    using evs by (intro exI [of _ evs] conjI)
  then show ?thesis
    using h l v rising_rows_symbol rising_rows_distinct by simp
qed

text \<open>
  Claim C5 as stated fails where two rows of a symbol share a date, which the loader
  keeps: each of them has its pass, and the date 21 receives two Strong Uptrend events.
\<close>

theorem duplicate_date_two_uptrends:
  "identify_patterns duplicate_date_rows ''ACME'' 20 =
     Inr [pattern_event 21 Strong_Uptrend, pattern_event 21 Strong_Uptrend]"
  apply (simp add: identify_patterns_def symbol_rows_def duplicate_date_rows_def plain_row_def
      upto.simps upt_rec [of 20] upt_rec [of "Suc _"])
  apply (simp add: window_events_def iloc_def iloc_slice_def Let_def trend_events_def diff_def
      dropna_def fsub_def fgt_def golden_cross_events_def death_cross_events_def
      rsi_events_def bollinger_events_def fge_def)
  done

section \<open>What one pass reads\<close>

lemma iloc_slice_update_beyond:
  "window \<le> i \<Longrightarrow> iloc_slice (xs[i := r]) (i - window) i = iloc_slice xs (i - window) i"
  by (simp add: iloc_slice_def drop_update_swap)

text \<open>
  Claim C9. For a series of more than 20 bars and a loop index \<open>i\<close> from 20 on, the pass
  returns; each event carries the date of bar \<open>i\<close>; the crossover tests compare the SMA
  values of the bars \<open>i - 2\<close> and \<open>i - 1\<close>, the RSI tests read the RSI of bar \<open>i - 1\<close>, and
  the band tests compare the close of bar \<open>i\<close> with the bands of bar \<open>i - 1\<close>. Of bar \<open>i\<close>
  only the date and the close are read: replacing it by any row with the same date and
  close, whatever its indicator values, leaves the result unchanged.
\<close>

theorem window_events_reads:
  assumes "20 \<le> i" "i < length sd"
  shows "\<exists>evs. window_events sd 20 i = Inr evs \<and>
     (\<forall>e \<in> set evs. date e = Date (sd ! i)) \<and>
     (Golden_Cross \<in> pattern ` set evs \<longleftrightarrow>
        fle (SMA_50 (sd ! (i - 2))) (SMA_200 (sd ! (i - 2))) \<and>
        fgt (SMA_50 (sd ! (i - 1))) (SMA_200 (sd ! (i - 1)))) \<and>
     (Death_Cross \<in> pattern ` set evs \<longleftrightarrow>
        fge (SMA_50 (sd ! (i - 2))) (SMA_200 (sd ! (i - 2))) \<and>
        fless (SMA_50 (sd ! (i - 1))) (SMA_200 (sd ! (i - 1)))) \<and>
     (Overbought \<in> pattern ` set evs \<longleftrightarrow> fgt (RSI (sd ! (i - 1))) (Fin 70)) \<and>
     (Oversold \<in> pattern ` set evs \<longleftrightarrow> fless (RSI (sd ! (i - 1))) (Fin 30)) \<and>
     (Above_Upper_Band \<in> pattern ` set evs \<longleftrightarrow>
        fgt (Close (sd ! i)) (BB_Upper (sd ! (i - 1)))) \<and>
     (Below_Lower_Band \<in> pattern ` set evs \<longleftrightarrow>
        \<not> fgt (Close (sd ! i)) (BB_Upper (sd ! (i - 1))) \<and>
        fless (Close (sd ! i)) (BB_Lower (sd ! (i - 1)))) \<and>
     (\<forall>r. Date r = Date (sd ! i) \<and> Close r = Close (sd ! i) \<longrightarrow>
        window_events (sd[i := r]) 20 i = window_events sd 20 i)"
proof -
  define d where "d = Date (sd ! i)"
  define t where "t = trend_events d (map Close (iloc_slice sd (i - 20) i))"
  define g where "g = golden_cross_events d (sd ! (i - 2)) (sd ! (i - 1))"
  define x where "x = death_cross_events d (sd ! (i - 2)) (sd ! (i - 1))"
  define r where "r = rsi_events d (sd ! (i - 1))"
  define b where "b = bollinger_events d (Close (sd ! i)) (sd ! (i - 1))"
  have eq: "window_events sd 20 i = Inr (t @ g @ x @ r @ b)"
    using window_events_eq [of 20 i sd] assms
    by (simp add: d_def t_def g_def x_def r_def b_def)
  have dates: "\<forall>e \<in> set (t @ g @ x @ r @ b). date e = Date (sd ! i)"
    using window_events_date [of 20 i sd "t @ g @ x @ r @ b"] assms eq by simp
  have pt: "pattern ` set t \<subseteq> {Strong_Uptrend, Strong_Downtrend, Consolidation}"
    using trend_events_cases [of d "map Close (iloc_slice sd (i - 20) i)"]
    by (auto simp: t_def)
  have pg: "Golden_Cross \<in> pattern ` set g \<longleftrightarrow>
        fle (SMA_50 (sd ! (i - 2))) (SMA_200 (sd ! (i - 2))) \<and>
        fgt (SMA_50 (sd ! (i - 1))) (SMA_200 (sd ! (i - 1)))"
    and pg': "pattern ` set g \<subseteq> {Golden_Cross}"
    by (auto simp: g_def golden_cross_events_def)
  have px: "Death_Cross \<in> pattern ` set x \<longleftrightarrow>
        fge (SMA_50 (sd ! (i - 2))) (SMA_200 (sd ! (i - 2))) \<and>
        fless (SMA_50 (sd ! (i - 1))) (SMA_200 (sd ! (i - 1)))"
    and px': "pattern ` set x \<subseteq> {Death_Cross}"
    by (auto simp: x_def death_cross_events_def)
  have pr: "Overbought \<in> pattern ` set r \<longleftrightarrow> fgt (RSI (sd ! (i - 1))) (Fin 70)"
    and pr2: "Oversold \<in> pattern ` set r \<longleftrightarrow> fless (RSI (sd ! (i - 1))) (Fin 30)"
    and pr': "pattern ` set r \<subseteq> {Overbought, Oversold}"
    using rsi_thresholds_exclusive [of "RSI (sd ! (i - 1))"]
    by (auto simp: r_def rsi_events_def)
  have pb: "Above_Upper_Band \<in> pattern ` set b \<longleftrightarrow>
        fgt (Close (sd ! i)) (BB_Upper (sd ! (i - 1)))"
    and pb2: "Below_Lower_Band \<in> pattern ` set b \<longleftrightarrow>
        \<not> fgt (Close (sd ! i)) (BB_Upper (sd ! (i - 1))) \<and>
        fless (Close (sd ! i)) (BB_Lower (sd ! (i - 1)))"
    and pb': "pattern ` set b \<subseteq> {Above_Upper_Band, Below_Lower_Band}"
    by (auto simp: b_def bollinger_events_def)
  have un: "pattern ` set (t @ g @ x @ r @ b) =
      pattern ` set t \<union> pattern ` set g \<union> pattern ` set x \<union> pattern ` set r
        \<union> pattern ` set b"
    by (simp add: image_Un Un_assoc)
  have frame: "\<forall>r. Date r = Date (sd ! i) \<and> Close r = Close (sd ! i) \<longrightarrow>
        window_events (sd[i := r]) 20 i = window_events sd 20 i"
  proof (intro allI impI)
    fix r' :: row
    assume a: "Date r' = Date (sd ! i) \<and> Close r' = Close (sd ! i)"
    have "window_events (sd[i := r']) 20 i =
       Inr (trend_events (Date (sd[i := r'] ! i)) (map Close (iloc_slice (sd[i := r']) (i - 20) i))
              @ golden_cross_events (Date (sd[i := r'] ! i)) (sd[i := r'] ! (i - 2)) (sd[i := r'] ! (i - 1))
              @ death_cross_events (Date (sd[i := r'] ! i)) (sd[i := r'] ! (i - 2)) (sd[i := r'] ! (i - 1))
              @ rsi_events (Date (sd[i := r'] ! i)) (sd[i := r'] ! (i - 1))
              @ bollinger_events (Date (sd[i := r'] ! i)) (Close (sd[i := r'] ! i)) (sd[i := r'] ! (i - 1)))"
      by (rule window_events_eq) (use assms in simp_all)
    also have "\<dots> = Inr (t @ g @ x @ r @ b)"
      using assms a
      by (simp add: iloc_slice_update_beyond d_def t_def g_def x_def r_def b_def)
    finally show "window_events (sd[i := r']) 20 i = window_events sd 20 i"
      by (simp add: eq)
  qed
  have G: "Golden_Cross \<in> pattern ` set (t @ g @ x @ r @ b) \<longleftrightarrow>
        fle (SMA_50 (sd ! (i - 2))) (SMA_200 (sd ! (i - 2))) \<and>
        fgt (SMA_50 (sd ! (i - 1))) (SMA_200 (sd ! (i - 1)))"
    unfolding un using pt pg px' pr' pb' by auto
  have X: "Death_Cross \<in> pattern ` set (t @ g @ x @ r @ b) \<longleftrightarrow>
        fge (SMA_50 (sd ! (i - 2))) (SMA_200 (sd ! (i - 2))) \<and>
        fless (SMA_50 (sd ! (i - 1))) (SMA_200 (sd ! (i - 1)))"
    unfolding un using pt pg' px pr' pb' by auto
  have R1: "Overbought \<in> pattern ` set (t @ g @ x @ r @ b) \<longleftrightarrow>
        fgt (RSI (sd ! (i - 1))) (Fin 70)"
    unfolding un using pt pg' px' pr pb' by auto
  have R2: "Oversold \<in> pattern ` set (t @ g @ x @ r @ b) \<longleftrightarrow>
        fless (RSI (sd ! (i - 1))) (Fin 30)"
    unfolding un using pt pg' px' pr2 pb' by auto
  have B1: "Above_Upper_Band \<in> pattern ` set (t @ g @ x @ r @ b) \<longleftrightarrow>
        fgt (Close (sd ! i)) (BB_Upper (sd ! (i - 1)))"
    unfolding un using pt pg' px' pr' pb by auto
  have B2: "Below_Lower_Band \<in> pattern ` set (t @ g @ x @ r @ b) \<longleftrightarrow>
        \<not> fgt (Close (sd ! i)) (BB_Upper (sd ! (i - 1))) \<and>
        fless (Close (sd ! i)) (BB_Lower (sd ! (i - 1)))"
    unfolding un using pt pg' px' pr' pb2 by auto
  show ?thesis
    unfolding eq
    by (intro exI [of _ "t @ g @ x @ r @ b"] conjI refl dates G X R1 R2 B1 B2 frame [unfolded eq])
qed

theorem window_events_reads_witness:
  "(20::nat) \<le> 20 \<and> 20 < length rising_rows \<and>
   Date ((plain_row 21 ''ACME'' 21)\<lparr>RSI := Fin 99, BB_Upper := Fin 0\<rparr>)
     = Date (rising_rows ! 20) \<and>
   Close ((plain_row 21 ''ACME'' 21)\<lparr>RSI := Fin 99, BB_Upper := Fin 0\<rparr>)
     = Close (rising_rows ! 20) \<and>
   window_events
     (rising_rows[20 := (plain_row 21 ''ACME'' 21)\<lparr>RSI := Fin 99, BB_Upper := Fin 0\<rparr>])
     20 20
   = window_events rising_rows 20 20"
proof -
  have h: "(20::nat) \<le> 20" by simp
  have l: "20 < length rising_rows" by (simp add: rising_rows_def)
  have s: "Date ((plain_row 21 ''ACME'' 21)\<lparr>RSI := Fin 99, BB_Upper := Fin 0\<rparr>)
             = Date (rising_rows ! 20) \<and>
           Close ((plain_row 21 ''ACME'' 21)\<lparr>RSI := Fin 99, BB_Upper := Fin 0\<rparr>)
             = Close (rising_rows ! 20)"
    by (simp add: rising_rows_def plain_row_def upto_20)
  show ?thesis
    using h l s window_events_reads [OF h l] by blast
qed

section \<open>Properties of the summary\<close>

lemma get_stock_summary_returns:
  assumes "symbol_rows s df \<noteq> []"
  shows "\<exists>sm. get_stock_summary df s = Inr sm \<and>
     Annual_Return sm = fmul (mean (daily_returns (symbol_rows s df))) (Fin 252) \<and>
     Volatility sm = fmul (std (daily_returns (symbol_rows s df))) (Fin (sqrt 252)) \<and>
     Sharpe_Ratio sm =
       (if fne (Volatility sm) (Fin 0) then fdiv (Annual_Return sm) (Volatility sm)
        else Fin 0) \<and>
     Week52_High sm = series_max (map High (symbol_rows s df)) \<and>
     Week52_Low sm = series_min (map Low (symbol_rows s df))"
  using assms by (simp add: get_stock_summary_def Let_def)

text \<open>
  Claim C2, as the code has it. For a symbol with exactly one row \<open>get_stock_summary\<close>
  returns; the daily-return series has one entry, \<open>NaN\<close>, and so no value at all; the mean
  and the standard deviation of no value are \<open>NaN\<close>, and the annualised return, the
  annualised volatility and the Sharpe ratio are all \<open>NaN\<close>: the guard of line 297 tests
  \<open>annualized_volatility != 0\<close>, which holds for \<open>NaN\<close>.
\<close>

theorem single_bar_summary:
  assumes "length (symbol_rows s df) = 1"
  shows "\<exists>sm. get_stock_summary df s = Inr sm \<and>
     daily_returns (symbol_rows s df) = [NaN] \<and>
     dropna (daily_returns (symbol_rows s df)) = [] \<and>
     Annual_Return sm = NaN \<and> Volatility sm = NaN \<and> Sharpe_Ratio sm = NaN"
proof -
  obtain r where r: "symbol_rows s df = [r]"
    using assms by (cases "symbol_rows s df") auto
  have d: "daily_returns (symbol_rows s df) = [NaN]"
    by (simp add: r daily_returns_def pct_change_def)
  have m: "mean [NaN] = NaN" and v: "std [NaN] = NaN"
    by (simp_all add: mean_def std_def dropna_def fsum_def)
  obtain sm where sm: "get_stock_summary df s = Inr sm"
    "Annual_Return sm = fmul (mean (daily_returns (symbol_rows s df))) (Fin 252)"
    "Volatility sm = fmul (std (daily_returns (symbol_rows s df))) (Fin (sqrt 252))"
    "Sharpe_Ratio sm =
       (if fne (Volatility sm) (Fin 0) then fdiv (Annual_Return sm) (Volatility sm)
        else Fin 0)"
    using get_stock_summary_returns [of s df] r by auto
  have "Annual_Return sm = NaN" "Volatility sm = NaN"
    using sm(2,3) by (simp_all add: d m v)
  moreover from this have "Sharpe_Ratio sm = NaN"
    using sm(4) by (simp add: fne_def)
  ultimately show ?thesis
    using sm(1) d by (simp add: dropna_def)
qed

theorem single_bar_summary_witness:
  "length (symbol_rows ''ACME'' [plain_row 1 ''ACME'' 10, plain_row 1 ''B'' 7]) = 1 \<and>
   (\<exists>sm. get_stock_summary [plain_row 1 ''ACME'' 10, plain_row 1 ''B'' 7] ''ACME'' = Inr sm \<and>
      Annual_Return sm = NaN \<and> Volatility sm = NaN \<and> Sharpe_Ratio sm = NaN)"
proof -
  have h: "length (symbol_rows ''ACME'' [plain_row 1 ''ACME'' 10, plain_row 1 ''B'' 7]) = 1"
    by (simp add: symbol_rows_def plain_row_def)
  show ?thesis
    using h single_bar_summary [OF h] by blast
qed

text \<open>
  Claim C2 as stated fails: for a single bar the three figures are \<open>NaN\<close>, not 0.
\<close>

theorem single_bar_summary_is_nan:
  "\<not> isl (get_stock_summary [plain_row 1 ''ACME'' 10] ''ACME'') \<and>
   Annual_Return (projr (get_stock_summary [plain_row 1 ''ACME'' 10] ''ACME'')) = NaN \<and>
   Volatility (projr (get_stock_summary [plain_row 1 ''ACME'' 10] ''ACME'')) = NaN \<and>
   Sharpe_Ratio (projr (get_stock_summary [plain_row 1 ''ACME'' 10] ''ACME'')) = NaN"
  by (simp add: get_stock_summary_def symbol_rows_def plain_row_def daily_returns_def
      pct_change_def mean_def std_def dropna_def fsum_def fne_def Let_def)

lemma fdiv_NaN_right: "fdiv a NaN = NaN"
  by (cases a) simp_all

lemma std_at_most_one_value: "length (dropna xs) \<le> 1 \<Longrightarrow> std xs = NaN"
  by (simp add: std_def Let_def)

lemma two_bars_one_return:
  assumes "length sd = 2"
  shows "length (dropna (daily_returns sd)) \<le> 1"
proof -
  obtain r1 r2 where "sd = [r1, r2]"
    using assms by (cases sd; cases "tl sd") auto
  then show ?thesis
    by (simp add: daily_returns_def pct_change_def dropna_def)
qed

text \<open>
  Claim C8, as the code has it. For a symbol with at least one row \<open>get_stock_summary\<close>
  returns, and a volatility of exactly 0 gives a Sharpe ratio of exactly 0: the division
  is not evaluated. Identical daily returns alone do not give that volatility: a series
  of two bars has one daily return, the standard deviation of one value is \<open>NaN\<close>, and the
  volatility and the Sharpe ratio are \<open>NaN\<close>.
\<close>

theorem sharpe_zero_when_volatility_zero:
  assumes "symbol_rows s df \<noteq> []"
  shows "\<exists>sm. get_stock_summary df s = Inr sm \<and>
     (Volatility sm = Fin 0 \<longrightarrow> Sharpe_Ratio sm = Fin 0) \<and>
     (length (symbol_rows s df) = 2 \<longrightarrow> Volatility sm = NaN \<and> Sharpe_Ratio sm = NaN)"
proof -
  obtain sm where sm: "get_stock_summary df s = Inr sm"
    "Volatility sm = fmul (std (daily_returns (symbol_rows s df))) (Fin (sqrt 252))"
    "Sharpe_Ratio sm =
       (if fne (Volatility sm) (Fin 0) then fdiv (Annual_Return sm) (Volatility sm)
        else Fin 0)"
    using get_stock_summary_returns [OF assms] by auto
  have g: "Volatility sm = Fin 0 \<longrightarrow> Sharpe_Ratio sm = Fin 0"
    using sm(3) by (simp add: fne_def)
  have t: "Volatility sm = NaN \<and> Sharpe_Ratio sm = NaN"
    if "length (symbol_rows s df) = 2"
  proof -
    have "std (daily_returns (symbol_rows s df)) = NaN"
      by (rule std_at_most_one_value [OF two_bars_one_return [OF that]])
    then have v: "Volatility sm = NaN"
      using sm(2) by simp
    then show ?thesis
      using sm(3) by (simp add: fne_def fdiv_NaN_right)
  qed
  show ?thesis
    using sm(1) g t by blast
qed

theorem sharpe_zero_when_volatility_zero_witness:
  "symbol_rows ''ACME''
     [plain_row 1 ''ACME'' 10, plain_row 2 ''ACME'' 10, plain_row 3 ''ACME'' 10] \<noteq> [] \<and>
   (\<exists>sm. get_stock_summary
       [plain_row 1 ''ACME'' 10, plain_row 2 ''ACME'' 10, plain_row 3 ''ACME'' 10] ''ACME''
       = Inr sm \<and> Volatility sm = Fin 0 \<and> Sharpe_Ratio sm = Fin 0) \<and>
   length (symbol_rows ''ACME'' [plain_row 1 ''ACME'' 10, plain_row 2 ''ACME'' 12]) = 2 \<and>
   (\<exists>sm. get_stock_summary [plain_row 1 ''ACME'' 10, plain_row 2 ''ACME'' 12] ''ACME''
       = Inr sm \<and> Volatility sm = NaN \<and> Sharpe_Ratio sm = NaN)"
proof -
  let ?df = "[plain_row 1 ''ACME'' 10, plain_row 2 ''ACME'' 10, plain_row 3 ''ACME'' 10]"
  let ?two = "[plain_row 1 ''ACME'' 10, plain_row 2 ''ACME'' 12]"
  have h: "symbol_rows ''ACME'' ?df \<noteq> []"
    by (simp add: symbol_rows_def plain_row_def)
  have h2: "symbol_rows ''ACME'' ?two \<noteq> []" and l2: "length (symbol_rows ''ACME'' ?two) = 2"
    by (simp_all add: symbol_rows_def plain_row_def)
  have d: "std (daily_returns (symbol_rows ''ACME'' ?df)) = Fin 0"
    by (simp add: symbol_rows_def plain_row_def daily_returns_def pct_change_def dropna_def
        fsub_def std_def fsum_def Let_def)
  obtain sm where sm: "get_stock_summary ?df ''ACME'' = Inr sm"
    "Volatility sm = fmul (std (daily_returns (symbol_rows ''ACME'' ?df))) (Fin (sqrt 252))"
    using get_stock_summary_returns [OF h] by blast
  have v: "Volatility sm = Fin 0"
    using sm(2) by (simp add: d)
  have a: "\<exists>sm. get_stock_summary ?df ''ACME'' = Inr sm \<and> Volatility sm = Fin 0 \<and>
             Sharpe_Ratio sm = Fin 0"
    using sharpe_zero_when_volatility_zero [OF h] sm(1) v by auto
  have b: "\<exists>sm. get_stock_summary ?two ''ACME'' = Inr sm \<and> Volatility sm = NaN \<and>
             Sharpe_Ratio sm = NaN"
    using sharpe_zero_when_volatility_zero [OF h2] l2 by blast
  show ?thesis
    using h l2 a b by blast
qed

text \<open>
  Claim C8 as stated fails for two bars at one price: the daily returns present are all
  the same (there is one, 0), and the volatility and the Sharpe ratio are \<open>NaN\<close>.
\<close>

theorem two_flat_bars_sharpe_nan:
  "\<not> isl (get_stock_summary [plain_row 1 ''ACME'' 10, plain_row 2 ''ACME'' 10] ''ACME'') \<and>
   dropna (daily_returns
     (symbol_rows ''ACME'' [plain_row 1 ''ACME'' 10, plain_row 2 ''ACME'' 10])) = [Fin 0] \<and>
   Volatility (projr
     (get_stock_summary [plain_row 1 ''ACME'' 10, plain_row 2 ''ACME'' 10] ''ACME'')) = NaN \<and>
   Sharpe_Ratio (projr
     (get_stock_summary [plain_row 1 ''ACME'' 10, plain_row 2 ''ACME'' 10] ''ACME'')) = NaN"
  by (simp add: get_stock_summary_def symbol_rows_def plain_row_def daily_returns_def
      pct_change_def mean_def std_def dropna_def fsum_def fsub_def fne_def Let_def)

lemma fle_refl: "a \<noteq> NaN \<Longrightarrow> fle a a"
  by (cases a) simp_all

lemma fle_trans: "fle a b \<Longrightarrow> fle b c \<Longrightarrow> fle a c"
  by (cases a; cases b; cases c) simp_all

lemma fless_imp_fle: "fless a b \<Longrightarrow> fle a b"
  by (cases a; cases b) simp_all

lemma not_fless_imp_fle: "a \<noteq> NaN \<Longrightarrow> b \<noteq> NaN \<Longrightarrow> \<not> fless a b \<Longrightarrow> fle b a"
  by (cases a; cases b) simp_all

lemma running_max:
  assumes "y \<noteq> NaN" "\<forall>x \<in> set ys. x \<noteq> NaN"
  shows "foldl (\<lambda>a b. if fless a b then b else a) y ys \<in> set (y # ys) \<and>
         (\<forall>x \<in> set (y # ys). fle x (foldl (\<lambda>a b. if fless a b then b else a) y ys))"
  using assms
proof (induction ys arbitrary: y)
  case Nil
  then show ?case by (simp add: fle_refl)
next
  case (Cons z ys)
  let ?y' = "if fless y z then z else y"
  have y': "?y' \<noteq> NaN" using Cons.prems by auto
  have IH: "foldl (\<lambda>a b. if fless a b then b else a) ?y' ys \<in> set (?y' # ys) \<and>
         (\<forall>x \<in> set (?y' # ys). fle x (foldl (\<lambda>a b. if fless a b then b else a) ?y' ys))"
    using Cons.IH [OF y'] Cons.prems by simp
  have yz: "fle y ?y'" "fle z ?y'"
    using Cons.prems by (auto simp: fle_refl fless_imp_fle not_fless_imp_fle)
  have top: "fle ?y' (foldl (\<lambda>a b. if fless a b then b else a) ?y' ys)"
    using IH by simp
  show ?case
    using IH fle_trans [OF yz(1) top] fle_trans [OF yz(2) top] by auto
qed

lemma running_min:
  assumes "y \<noteq> NaN" "\<forall>x \<in> set ys. x \<noteq> NaN"
  shows "foldl (\<lambda>a b. if fless b a then b else a) y ys \<in> set (y # ys) \<and>
         (\<forall>x \<in> set (y # ys). fle (foldl (\<lambda>a b. if fless b a then b else a) y ys) x)"
  using assms
proof (induction ys arbitrary: y)
  case Nil
  then show ?case by (simp add: fle_refl)
next
  case (Cons z ys)
  let ?y' = "if fless z y then z else y"
  have y': "?y' \<noteq> NaN" using Cons.prems by auto
  have IH: "foldl (\<lambda>a b. if fless b a then b else a) ?y' ys \<in> set (?y' # ys) \<and>
         (\<forall>x \<in> set (?y' # ys). fle (foldl (\<lambda>a b. if fless b a then b else a) ?y' ys) x)"
    using Cons.IH [OF y'] Cons.prems by simp
  have yz: "fle ?y' y" "fle ?y' z"
    using Cons.prems by (auto simp: fle_refl fless_imp_fle not_fless_imp_fle)
  have bot: "fle (foldl (\<lambda>a b. if fless b a then b else a) ?y' ys) ?y'"
    using IH by simp
  show ?case
    using IH fle_trans [OF bot yz(1)] fle_trans [OF bot yz(2)] by auto
qed

lemma set_dropna: "set (dropna xs) = set xs - {NaN}"
  by (auto simp: dropna_def)

lemma series_max_greatest:
  "(\<forall>x \<in> set xs. x \<noteq> NaN \<longrightarrow> fle x (series_max xs)) \<and>
   (series_max xs \<noteq> NaN \<longrightarrow> series_max xs \<in> set xs) \<and>
   (series_max xs = NaN \<longleftrightarrow> (\<forall>x \<in> set xs. x = NaN))"
proof (cases "dropna xs")
  case Nil
  then have "\<forall>x \<in> set xs. x = NaN"
    using set_dropna [of xs] by auto
  then show ?thesis by (simp add: series_max_def Nil)
next
  case (Cons y ys)
  have n: "y \<noteq> NaN" "\<forall>x \<in> set ys. x \<noteq> NaN"
    using set_dropna [of xs] Cons by auto
  have s: "set (y # ys) = set xs - {NaN}"
    using set_dropna [of xs] Cons by simp
  from running_max [OF n] s show ?thesis
    by (auto simp: series_max_def Cons)
qed

lemma series_min_least:
  "(\<forall>x \<in> set xs. x \<noteq> NaN \<longrightarrow> fle (series_min xs) x) \<and>
   (series_min xs \<noteq> NaN \<longrightarrow> series_min xs \<in> set xs) \<and>
   (series_min xs = NaN \<longleftrightarrow> (\<forall>x \<in> set xs. x = NaN))"
proof (cases "dropna xs")
  case Nil
  then have "\<forall>x \<in> set xs. x = NaN"
    using set_dropna [of xs] by auto
  then show ?thesis by (simp add: series_min_def Nil)
next
  case (Cons y ys)
  have n: "y \<noteq> NaN" "\<forall>x \<in> set ys. x \<noteq> NaN"
    using set_dropna [of xs] Cons by auto
  have s: "set (y # ys) = set xs - {NaN}"
    using set_dropna [of xs] Cons by simp
  from running_min [OF n] s show ?thesis
    by (auto simp: series_min_def Cons)
qed

text \<open>
  Claim C10. The fields \<open>'52-Week High'\<close> and \<open>'52-Week Low'\<close> are the greatest \<open>High\<close> and the
  least \<open>Low\<close> among all rows of the symbol, however many there are: every value
  present is bounded by the field, the field is the value of some row, and it is \<open>NaN\<close>
  only when no row has a value.
\<close>

theorem week52_is_whole_history:
  assumes "symbol_rows s df \<noteq> []"
  shows "\<exists>sm. get_stock_summary df s = Inr sm \<and>
     (\<forall>r \<in> set (symbol_rows s df). High r \<noteq> NaN \<longrightarrow> fle (High r) (Week52_High sm)) \<and>
     (Week52_High sm \<noteq> NaN \<longrightarrow> (\<exists>r \<in> set (symbol_rows s df). High r = Week52_High sm)) \<and>
     (Week52_High sm = NaN \<longleftrightarrow> (\<forall>r \<in> set (symbol_rows s df). High r = NaN)) \<and>
     (\<forall>r \<in> set (symbol_rows s df). Low r \<noteq> NaN \<longrightarrow> fle (Week52_Low sm) (Low r)) \<and>
     (Week52_Low sm \<noteq> NaN \<longrightarrow> (\<exists>r \<in> set (symbol_rows s df). Low r = Week52_Low sm)) \<and>
     (Week52_Low sm = NaN \<longleftrightarrow> (\<forall>r \<in> set (symbol_rows s df). Low r = NaN))"
proof -
  obtain sm where sm: "get_stock_summary df s = Inr sm"
    "Week52_High sm = series_max (map High (symbol_rows s df))"
    "Week52_Low sm = series_min (map Low (symbol_rows s df))"
    using get_stock_summary_returns [OF assms] by auto
  have hi: "(\<forall>r \<in> set (symbol_rows s df). High r \<noteq> NaN \<longrightarrow> fle (High r) (Week52_High sm)) \<and>
     (Week52_High sm \<noteq> NaN \<longrightarrow> (\<exists>r \<in> set (symbol_rows s df). High r = Week52_High sm)) \<and>
     (Week52_High sm = NaN \<longleftrightarrow> (\<forall>r \<in> set (symbol_rows s df). High r = NaN))"
    using series_max_greatest [of "map High (symbol_rows s df)"] unfolding sm(2) by auto
  have lo: "(\<forall>r \<in> set (symbol_rows s df). Low r \<noteq> NaN \<longrightarrow> fle (Week52_Low sm) (Low r)) \<and>
     (Week52_Low sm \<noteq> NaN \<longrightarrow> (\<exists>r \<in> set (symbol_rows s df). Low r = Week52_Low sm)) \<and>
     (Week52_Low sm = NaN \<longleftrightarrow> (\<forall>r \<in> set (symbol_rows s df). Low r = NaN))"
    using series_min_least [of "map Low (symbol_rows s df)"] unfolding sm(3) by auto
  show ?thesis
    using sm(1) hi lo by blast
qed

lemma falling_rows_symbol: "symbol_rows ''ACME'' falling_rows = falling_rows"
  by (simp add: symbol_rows_def falling_rows_def plain_row_def)

lemma falling_rows_max: "series_max (map High falling_rows) = Fin 99"
  by (simp add: falling_rows_def plain_row_def upto.simps series_max_def dropna_def)

lemma falling_rows_min: "series_min (map Low falling_rows) = Fin 40"
  by (simp add: falling_rows_def plain_row_def upto.simps series_min_def dropna_def)

theorem week52_is_whole_history_witness:
  "symbol_rows ''ACME'' falling_rows \<noteq> [] \<and> length (symbol_rows ''ACME'' falling_rows) = 60 \<and>
   High (falling_rows ! 0) = Fin 99 \<and>
   (\<exists>sm. get_stock_summary falling_rows ''ACME'' = Inr sm \<and>
      Week52_High sm = Fin 99 \<and> Week52_Low sm = Fin 40 \<and>
      fle (High (falling_rows ! 0)) (Week52_High sm))"
proof -
  have h: "symbol_rows ''ACME'' falling_rows \<noteq> []"
    by (simp add: falling_rows_symbol) (simp add: falling_rows_def upto.simps)
  have l: "length (symbol_rows ''ACME'' falling_rows) = 60"
    by (simp add: falling_rows_symbol) (simp add: falling_rows_def)
  have f: "High (falling_rows ! 0) = Fin 99"
    by (simp add: falling_rows_def plain_row_def upto.simps)
  have m: "falling_rows ! 0 \<in> set (symbol_rows ''ACME'' falling_rows)"
    unfolding falling_rows_symbol by (rule nth_mem) (simp add: falling_rows_def)
  obtain sm where sm: "get_stock_summary falling_rows ''ACME'' = Inr sm"
    and b: "\<forall>r \<in> set (symbol_rows ''ACME'' falling_rows).
              High r \<noteq> NaN \<longrightarrow> fle (High r) (Week52_High sm)"
    using week52_is_whole_history [OF h] by blast
  obtain sm' where sm': "get_stock_summary falling_rows ''ACME'' = Inr sm'"
    "Week52_High sm' = series_max (map High (symbol_rows ''ACME'' falling_rows))"
    "Week52_Low sm' = series_min (map Low (symbol_rows ''ACME'' falling_rows))"
    using get_stock_summary_returns [OF h] by blast
  have e: "sm' = sm" using sm sm'(1) by simp
  have v: "Week52_High sm = Fin 99" "Week52_Low sm = Fin 40"
    using sm'(2,3) by (simp_all add: e falling_rows_symbol falling_rows_max falling_rows_min)
  have "fle (High (falling_rows ! 0)) (Week52_High sm)"
    using b m f by auto
  then show ?thesis
    using h l f sm v by blast
qed

section \<open>Indicators over a frame of several symbols\<close>

lemma mixed_frame_own_rows: "symbol_rows ''ACME'' (mixed_frame c) = [own_bar]"
  by (simp add: mixed_frame_def symbol_rows_def other_bar_def own_bar_def)

lemma upto_19: "[1..19] = [1, 2, 3, 4, 5, 6, 7, 8, 9, 10, 11, 12, 13, 14, 15, 16, 17, 18,
    19::int]"
  by (simp add: upto.simps)

lemma upt_20: "[0..<20] = [0, 1, 2, 3, 4, 5, 6, 7, 8, 9, 10, 11, 12, 13, 14, 15, 16, 17, 18,
    19::nat]"
  by (simp add: upt_rec [of 0] upt_rec [of "Suc _"] upt_rec [of "numeral _"])

lemma mixed_frame_sma:
  "map SMA_20 (symbol_rows ''ACME'' (process_data_rows lib (mixed_frame c)))
     = [Fin ((19 * c + 1) / 20)]"
  by (simp add: mixed_frame_def upto_19 other_bar_def own_bar_def process_data_rows_def
      calculate_technical_indicators_def Let_def upt_20 symbol_rows_def sma_indicator_def
      cell_at_def fsum_def)

text \<open>
  Claim C1 fails on the code. The two frames \<open>mixed_frame 1\<close> and \<open>mixed_frame 21\<close> have
  the same single row of the symbol \<open>ACME\<close> and differ in the closes of the other symbol
  only. The 20-bar moving average is computed over the rows of the whole frame, so the
  value attached to the row of \<open>ACME\<close> is the mean of the other symbol's 19 closes and its
  own: 1 in the first frame, 20 in the second, whatever the other indicators are.
\<close>

theorem indicators_depend_on_other_symbols:
  "symbol_rows ''ACME'' (mixed_frame 1) = symbol_rows ''ACME'' (mixed_frame 21) \<and>
   map SMA_20 (symbol_rows ''ACME'' (process_data_rows lib (mixed_frame 1))) = [Fin 1] \<and>
   map SMA_20 (symbol_rows ''ACME'' (process_data_rows lib (mixed_frame 21))) = [Fin 20]"
  by (simp add: mixed_frame_own_rows mixed_frame_sma)

section \<open>Adding the indicator columns\<close>

lemma index_set_column [simp]: "index (set_column df k xs) = index df"
  by (simp add: set_column_def)

lemma map_of_set_column:
  "map_of (columns (set_column df k xs)) = (map_of (columns df))(k \<mapsto> Floats xs)"
  by (simp add: set_column_def update_conv')

lemma keys_set_column:
  "fst ` set (columns (set_column df k xs)) = insert k (fst ` set (columns df))"
  by (simp add: set_column_def dom_update [of k "Floats xs" "columns df", unfolded dom_map_of_conv_image_fst] insert_commute)

lemma get_numeric_set_column:
  "k \<noteq> ''close'' \<Longrightarrow> get_numeric (set_column df k xs) ''close'' = get_numeric df ''close''"
  by (simp add: get_numeric_def get_column_def map_of_set_column)

lemma indicator_columns_raised:
  "isl (get_numeric df ''close'') \<Longrightarrow> indicator_columns lib df = df"
  by (cases "get_numeric df ''close''")
     (simp_all add: indicator_columns_def assign_from_close_def)

lemma indicator_columns_assigned:
  assumes "get_numeric df ''close'' = Inr close"
  shows "indicator_columns lib df =
     set_column (set_column (set_column (set_column (set_column df
                 ''SMA_20'' (sma_indicator 20 close))
                 ''SMA_50'' (sma_indicator 50 close))
                 ''RSI'' (rsi lib close))
                 ''MACD'' (macd lib close))
                 ''MACD_Signal'' (macd_signal lib close)"
  using assms
  by (simp add: indicator_columns_def assign_from_close_def get_numeric_set_column)

lemma indicator_columns_index: "index (indicator_columns lib df) = index df"
proof (cases "get_numeric df ''close''")
  case (Inl e)
  then show ?thesis by (simp add: indicator_columns_raised)
next
  case (Inr close)
  then show ?thesis by (simp add: indicator_columns_assigned)
qed

lemma indicator_columns_other:
  assumes "k \<notin> {''SMA_20'', ''SMA_50'', ''RSI'', ''MACD'', ''MACD_Signal''}"
  shows "map_of (columns (indicator_columns lib df)) k = map_of (columns df) k"
proof (cases "get_numeric df ''close''")
  case (Inl e)
  then show ?thesis by (simp add: indicator_columns_raised)
next
  case (Inr close)
  have k: "k \<noteq> ''SMA_20''" "k \<noteq> ''SMA_50''" "k \<noteq> ''RSI''" "k \<noteq> ''MACD''"
    "k \<noteq> ''MACD_Signal''"
    using assms by blast+
  show ?thesis
    using k by (simp add: indicator_columns_assigned [OF Inr] map_of_set_column)
qed

lemma indicator_columns_added:
  assumes "\<not> isl (get_numeric df ''close'')"
  shows "{''SMA_20'', ''SMA_50'', ''RSI'', ''MACD'', ''MACD_Signal''}
           \<subseteq> fst ` set (columns (indicator_columns lib df))"
proof -
  obtain close where c: "get_numeric df ''close'' = Inr close"
    using assms by (cases "get_numeric df ''close''") auto
  have "fst ` set (columns (indicator_columns lib df)) =
      insert ''MACD_Signal'' (insert ''MACD'' (insert ''RSI'' (insert ''SMA_50''
        (insert ''SMA_20'' (fst ` set (columns df))))))"
    by (simp only: indicator_columns_assigned [OF c] keys_set_column)
  then show ?thesis by blast
qed

lemma truncate_row:
  "bar.truncate
     \<lparr>Date = Date b, Name = Name b, Open = Open b, High = High b, Low = Low b,
      Close = Close b, Volume = Volume b,
      SMA_20 = x1, SMA_50 = x2, SMA_200 = x3, EMA_20 = x4, EMA_50 = x5, MACD = x6,
      MACD_Signal = x7, MACD_Hist = x8, RSI = x9, BB_Upper = x10, BB_Lower = x11,
      BB_Middle = x12, Stoch_K = x13, Stoch_D = x14\<rparr> = (b::bar)"
  by (simp add: bar.truncate_def)

lemma calculate_technical_indicators_raw:
  "map bar.truncate (calculate_technical_indicators lib df) = df"
  by (simp only: calculate_technical_indicators_def Let_def map_map comp_def truncate_row
      map_nth)

text \<open>
  Claim C7, as the code has it. \<open>add_technical_indicators\<close> returns the address it was
  given: the frame at that address is updated in place and no other frame changes. The
  index and every column other than the five indicator columns are as before; when the
  frame is not empty and has a numeric \<open>close\<close> column, the five indicator columns are
  present afterwards. In the analyser, the rows \<open>calculate_technical_indicators\<close> leaves
  in \<open>self.df\<close> carry the seven raw fields of the rows it found there, unchanged.
\<close>

theorem augment_in_place:
  "snd (add_technical_indicators lib h a) = a \<and>
   (\<forall>b. b \<noteq> a \<longrightarrow> fst (add_technical_indicators lib h a) b = h b) \<and>
   index (fst (add_technical_indicators lib h a) a) = index (h a) \<and>
   (\<forall>k. k \<notin> {''SMA_20'', ''SMA_50'', ''RSI'', ''MACD'', ''MACD_Signal''} \<longrightarrow>
      map_of (columns (fst (add_technical_indicators lib h a) a)) k
        = map_of (columns (h a)) k) \<and>
   (\<not> frame_empty (h a) \<and> \<not> isl (get_numeric (h a) ''close'') \<longrightarrow>
      {''SMA_20'', ''SMA_50'', ''RSI'', ''MACD'', ''MACD_Signal''}
        \<subseteq> fst ` set (columns (fst (add_technical_indicators lib h a) a))) \<and>
   map bar.truncate (calculate_technical_indicators lib df) = df"
proof -
  let ?r = "add_technical_indicators lib h a"
  have raw: "map bar.truncate (calculate_technical_indicators lib df) = df"
    by (rule calculate_technical_indicators_raw)
  show ?thesis
  proof (cases "frame_empty (h a)")
    case True
    then have "?r = (h, a)"
      by (simp add: add_technical_indicators_def)
    then show ?thesis using True raw by simp
  next
    case False
    define df' where "df' = indicator_columns lib (h a)"
    have r: "?r = (h(a := df'), a)"
      using False by (simp add: add_technical_indicators_def df'_def)
    have 1: "index df' = index (h a)"
      unfolding df'_def by (rule indicator_columns_index)
    have 2: "\<forall>k. k \<notin> {''SMA_20'', ''SMA_50'', ''RSI'', ''MACD'', ''MACD_Signal''} \<longrightarrow>
               map_of (columns df') k = map_of (columns (h a)) k"
      unfolding df'_def by (intro allI impI) (rule indicator_columns_other)
    have 3: "\<not> frame_empty (h a) \<and> \<not> isl (get_numeric (h a) ''close'') \<longrightarrow>
               {''SMA_20'', ''SMA_50'', ''RSI'', ''MACD'', ''MACD_Signal''}
               \<subseteq> fst ` set (columns df')"
      unfolding df'_def by (intro impI, elim conjE) (rule indicator_columns_added)
    have f: "fst ?r a = df'" "snd ?r = a" "\<forall>b. b \<noteq> a \<longrightarrow> fst ?r b = h b"
      by (simp_all add: r)
    show ?thesis
      unfolding f(1) by (intro conjI f(2) f(3) 1 2 3 raw)
  qed
qed

theorem augment_in_place_witness:
  "snd (add_technical_indicators short_series_lib one_frame_store 0) = 0 \<and>
   fst (add_technical_indicators short_series_lib one_frame_store 0) 1 = one_frame_store 1 \<and>
   map_of (columns (fst (add_technical_indicators short_series_lib one_frame_store 0) 0))
     ''close'' = Some (Floats [Fin 10]) \<and>
   \<not> frame_empty (one_frame_store 0) \<and> \<not> isl (get_numeric (one_frame_store 0) ''close'') \<and>
   ''RSI'' \<in> fst ` set (columns
      (fst (add_technical_indicators short_series_lib one_frame_store 0) 0)) \<and>
   map bar.truncate (calculate_technical_indicators short_series_lib [own_bar]) = [own_bar]"
proof -
  have e: "\<not> frame_empty (one_frame_store 0)"
    by (simp add: frame_empty_def one_frame_store_def one_row_frame_def)
  have n: "\<not> isl (get_numeric (one_frame_store 0) ''close'')"
    by (simp add: get_numeric_def get_column_def numeric_def one_frame_store_def
        one_row_frame_def)
  have c: "map_of (columns (one_frame_store 0)) ''close'' = Some (Floats [Fin 10])"
    by (simp add: one_frame_store_def one_row_frame_def)
  have k: "''close'' \<notin> {''SMA_20'', ''SMA_50'', ''RSI'', ''MACD'', ''MACD_Signal''}"
    by simp
  show ?thesis
    using e n c k augment_in_place [of short_series_lib one_frame_store 0 "[own_bar]"]
    by auto
qed

text \<open>
  Claim C7 as stated fails: the frame returned is the argument itself, and the argument
  has the column \<open>SMA_20\<close> after the call, which it did not have before.
\<close>

theorem add_technical_indicators_mutates_argument:
  "snd (add_technical_indicators short_series_lib one_frame_store 0) = 0 \<and>
   map_of (columns (one_frame_store 0)) ''SMA_20'' = None \<and>
   map_of (columns (fst (add_technical_indicators short_series_lib one_frame_store 0) 0))
     ''SMA_20'' = Some (Floats [NaN])"
  by (simp add: add_technical_indicators_def frame_empty_def indicator_columns_def
      assign_from_close_def get_numeric_def get_column_def numeric_def one_frame_store_def
      one_row_frame_def set_column_def short_series_lib_def sma_indicator_def)

section \<open>The statistics of the second application\<close>

text \<open>
  The statistics of \<open>app.py\<close> read the same way: the two entries are the greatest value
  of the whole \<open>high\<close> column and the least of the whole \<open>low\<close> column of the frame.
\<close>

lemma calculate_statistics_week52:
  assumes "calculate_statistics df = Inr st"
  shows "\<exists>high low. get_numeric df ''high'' = Inr high \<and> get_numeric df ''low'' = Inr low \<and>
     Stat_Week52_High st = series_max high \<and> Stat_Week52_Low st = series_min low \<and>
     (\<forall>x \<in> set high. x \<noteq> NaN \<longrightarrow> fle x (Stat_Week52_High st)) \<and>
     (\<forall>x \<in> set low. x \<noteq> NaN \<longrightarrow> fle (Stat_Week52_Low st) x)"
proof -
  have "\<exists>high low. get_numeric df ''high'' = Inr high \<and> get_numeric df ''low'' = Inr low \<and>
     Stat_Week52_High st = series_max high \<and> Stat_Week52_Low st = series_min low"
    using assms by (auto simp: calculate_statistics_def split: sum.splits)
  then show ?thesis
    using series_max_greatest series_min_least by metis
qed

section \<open>The loaded frame\<close>

text \<open>
  The frame \<open>process_data\<close> leaves in \<open>self.df\<close> is sorted by date and has the rows of
  each symbol that the input had, so the ordering that the date order of the events
  rests on holds for every loaded frame.
\<close>

lemma Date_truncate: "Date (bar.truncate r) = Date r"
  by (simp add: bar.truncate_def)

lemma process_data_rows_sorted: "sorted (map Date (process_data_rows lib df))"
proof -
  have "map Date (calculate_technical_indicators lib (sort_key Date df))
          = map Date (map bar.truncate
              (calculate_technical_indicators lib (sort_key Date df)))"
    by (simp add: Date_truncate)
  also have "\<dots> = map Date (sort_key Date df)"
    by (simp only: calculate_technical_indicators_raw)
  finally show ?thesis
    by (simp add: process_data_rows_def)
qed

lemma identify_patterns_loaded_frame:
  "symbol_rows s (process_data_rows lib df) \<noteq> [] \<Longrightarrow>
     \<exists>evs. identify_patterns (process_data_rows lib df) s 20 = Inr evs \<and>
           sorted (map date evs)"
  using patterns_loop_sorted [of 20 "[20..<length (symbol_rows s (process_data_rows lib df))]"
      "symbol_rows s (process_data_rows lib df)" "[]"]
    symbol_rows_sorted [OF process_data_rows_sorted, of s lib df]
  by (simp add: identify_patterns_def Let_def)

end
